theory Spec2Isabelle
  imports Complex_Main "HOL-Library.Log_Nat" "HOL-Library.Multiset"
begin

section \<open>The language's built-in operations\<close>

text \<open>
  The worker is TypeScript. A string is modelled as the list of its code units, so
  \<open>length\<close> is the \<^verbatim>\<open>.length\<close> of the source. An optional or nullable value is an
  \<open>option\<close>; \<open>None\<close> stands for both \<^verbatim>\<open>undefined\<close> and \<^verbatim>\<open>null\<close> wherever the
  modelled code treats them alike (a truthiness test, \<^verbatim>\<open>||\<close>, \<^verbatim>\<open>?.\<close>). The one test that tells
  them apart, \<^verbatim>\<open>!== undefined\<close> on the prompt number of a message, works on a type that
  keeps \<^verbatim>\<open>null\<close> as a value.
\<close>

subsection \<open>Strings\<close>

text \<open>\<^verbatim>\<open>s.startsWith(p)\<close> and \<^verbatim>\<open>s.includes(p)\<close>.\<close>

fun js_startsWith :: "string \<Rightarrow> string \<Rightarrow> bool" where
  "js_startsWith s [] = True"
| "js_startsWith [] (p # ps) = False"
| "js_startsWith (c # cs) (p # ps) = (c = p \<and> js_startsWith cs ps)"

fun js_includes :: "string \<Rightarrow> string \<Rightarrow> bool" where
  "js_includes [] p = (p = [])"
| "js_includes (c # cs) p = (js_startsWith (c # cs) p \<or> js_includes cs p)"

text \<open>Truthiness of an optional string: \<^verbatim>\<open>undefined\<close>, \<^verbatim>\<open>null\<close> and \<^verbatim>\<open>''\<close> are falsy.\<close>

definition truthy_str :: "string option \<Rightarrow> bool" where
  "truthy_str s = (case s of None \<Rightarrow> False | Some v \<Rightarrow> v \<noteq> [])"

subsection \<open>Map objects\<close>

text \<open>
  A \<^verbatim>\<open>Map\<close> keeps its entries in insertion order and holds a key once: an association
  list. \<^verbatim>\<open>set\<close> on a key already present replaces the value where it stands.
\<close>

type_synonym ('k, 'v) js_map = "('k \<times> 'v) list"

definition Map_get :: "'k \<Rightarrow> ('k, 'v) js_map \<Rightarrow> 'v option" where
  "Map_get k m = map_of m k"

definition Map_set :: "'k \<Rightarrow> 'v \<Rightarrow> ('k, 'v) js_map \<Rightarrow> ('k, 'v) js_map" where
  "Map_set k v m =
     (if k \<in> set (map fst m) then map (\<lambda>(k', v'). if k' = k then (k', v) else (k', v')) m
      else m @ [(k, v)])"

definition Map_delete :: "'k \<Rightarrow> ('k, 'v) js_map \<Rightarrow> ('k, 'v) js_map" where
  "Map_delete k m = filter (\<lambda>(k', v'). k' \<noteq> k) m"

definition Map_keys :: "('k, 'v) js_map \<Rightarrow> 'k list" where
  "Map_keys m = map fst m"

subsection \<open>Numbers\<close>

text \<open>
  Every number of the source is an IEEE 754 double. Counters, lengths, token counts and
  clock readings are integers far below \<open>2 ^ 53\<close>, where sums, differences and products
  of integers are exact: they are modelled as \<open>int\<close>. A quotient is rounded to the
  nearest double, ties to even; \<open>fl64\<close> is that rounding, on the exact rational value
  (magnitudes here are far from the exponent range, so neither overflow nor subnormal
  results are modelled). \<open>Math.round\<close> rounds half up, \<open>Math.ceil\<close> is the ceiling.
\<close>

type_synonym number = rat

definition pow2 :: "int \<Rightarrow> rat" where
  "pow2 k = (if 0 \<le> k then 2 ^ nat k else 1 / 2 ^ nat (- k))"

definition round_ties_even :: "rat \<Rightarrow> int" where
  "round_ties_even q =
     (let n = \<lfloor>q\<rfloor>; r = q - of_int n
      in if r < 1 / 2 then n else if 1 / 2 < r then n + 1 else if even n then n else n + 1)"

text \<open>The \<open>e\<close> with \<open>2 ^ e \<le> a < 2 ^ (e + 1)\<close>, for positive \<open>a\<close>.\<close>

definition binary_exponent :: "rat \<Rightarrow> int" where
  "binary_exponent a =
     (let (p, q) = quotient_of a; e0 = bitlen p - bitlen q
      in if a < pow2 e0 then e0 - 1 else e0)"

definition fl64 :: "rat \<Rightarrow> number" where
  "fl64 x =
     (if x = 0 then 0
      else let a = \<bar>x\<bar>; u = pow2 (binary_exponent a - 52)
           in sgn x * of_int (round_ties_even (a / u)) * u)"

definition js_div :: "number \<Rightarrow> number \<Rightarrow> number" where
  "js_div a b = fl64 (a / b)"

definition js_mul :: "number \<Rightarrow> number \<Rightarrow> number" where
  "js_mul a b = fl64 (a * b)"

definition Math_round :: "number \<Rightarrow> int" where
  "Math_round x = \<lfloor>x + 1 / 2\<rfloor>"

definition Math_ceil :: "number \<Rightarrow> int" where
  "Math_ceil x = \<lceil>x\<rceil>"

text \<open>A property that holds a number or \<^verbatim>\<open>null\<close>.\<close>

datatype nullable_number = Null | Number int

text \<open>\<^verbatim>\<open>x || 0\<close> on an optional number.\<close>

definition or_0 :: "int option \<Rightarrow> int" where
  "or_0 x = (case x of None \<Rightarrow> 0 | Some v \<Rightarrow> v)"

subsection \<open>JSON values and the platform\<close>

datatype json =
    JNull
  | JBool bool
  | JNum number
  | JStr string
  | JArr "json list"
  | JObj "(string \<times> json) list"

text \<open>
  \<^verbatim>\<open>JSON.parse\<close>, the rendering of a number as a string and \<^verbatim>\<open>Date.parse\<close> belong to
  the platform, not to the repository: the model takes them as parameters. \<open>None\<close> is the
  \<^verbatim>\<open>SyntaxError\<close> of \<^verbatim>\<open>JSON.parse\<close> and the \<^verbatim>\<open>NaN\<close> of \<^verbatim>\<open>Date.parse\<close>.
\<close>

record platform =
  JSON_parse :: "string \<Rightarrow> json option"
  Number_toString :: "number \<Rightarrow> string"
  Date_parse :: "string \<Rightarrow> int option"

fun join_with :: "string \<Rightarrow> string list \<Rightarrow> string" where
  "join_with sep [] = []"
| "join_with sep [s] = s"
| "join_with sep (s # t # ss) = s @ sep @ join_with sep (t # ss)"

text \<open>
  \<^verbatim>\<open>arr.join(sep)\<close>: an element that is \<^verbatim>\<open>null\<close> gives the empty string, any other
  element its string conversion; an array converts to its own \<^verbatim>\<open>join(',')\<close>.
\<close>

fun ToString :: "(number \<Rightarrow> string) \<Rightarrow> json \<Rightarrow> string" where
  "ToString ns JNull = ''null''"
| "ToString ns (JBool b) = (if b then ''true'' else ''false'')"
| "ToString ns (JNum n) = ns n"
| "ToString ns (JStr s) = s"
| "ToString ns (JArr xs) =
     join_with '','' (map (\<lambda>x. if x = JNull then [] else ToString ns x) xs)"
| "ToString ns (JObj kvs) = ''[object Object]''"

definition Array_join :: "(number \<Rightarrow> string) \<Rightarrow> string \<Rightarrow> json list \<Rightarrow> string" where
  "Array_join ns sep xs =
     join_with sep (map (\<lambda>x. if x = JNull then [] else ToString ns x) xs)"

subsection \<open>Exceptions\<close>

text \<open>The errors the modelled code meets: thrown by the database, by a broadcast, by a write to the store.\<close>

datatype js_error = DatabaseError | BroadcastError | StoreError

text \<open>
  A statement either completes or throws; what it did to the state before throwing
  stays done. \<open>try_catch\<close> hands a thrown error and that state to the handler.
\<close>

type_synonym 's outcome = "(js_error \<times> 's) + 's"

definition try_catch :: "'s outcome \<Rightarrow> (js_error \<Rightarrow> 's \<Rightarrow> 's outcome) \<Rightarrow> 's outcome" where
  "try_catch body handler = (case body of Inl (e, s) \<Rightarrow> handler e s | Inr s \<Rightarrow> Inr s)"

definition state_after :: "'s outcome \<Rightarrow> 's" where
  "state_after r = (case r of Inl (e, s) \<Rightarrow> s | Inr s \<Rightarrow> s)"

section \<open>TokenMetricsService: the cache\<close>

record 'd CacheEntry =
  data :: 'd
  timestamp :: int

type_synonym 'd cache = "(string, 'd CacheEntry) js_map"

text \<open>
  \<^verbatim>\<open>getCached(key, ttl)\<close> at clock reading \<open>now\<close>, and \<^verbatim>\<open>setCache(key, data)\<close>.
\<close>

definition getCached :: "int \<Rightarrow> string \<Rightarrow> int \<Rightarrow> 'd cache \<Rightarrow> 'd option" where
  "getCached now key ttl c =
     (case Map_get key c of
        Some entry \<Rightarrow> if now - timestamp entry < ttl then Some (data entry) else None
      | None \<Rightarrow> None)"

definition setCache :: "int \<Rightarrow> string \<Rightarrow> 'd \<Rightarrow> 'd cache \<Rightarrow> 'd cache" where
  "setCache now key d c = Map_set key \<lparr>data = d, timestamp = now\<rparr> c"

text \<open>
  The test of \<^verbatim>\<open>invalidateCache\<close>:
  \<^verbatim>\<open>!project || key.includes(project) || key.startsWith('summary:')\<close>.
\<close>

definition invalidated :: "string option \<Rightarrow> string \<Rightarrow> bool" where
  "invalidated project key =
     (case project of
        None \<Rightarrow> True
      | Some p \<Rightarrow> p = [] \<or> js_includes key p \<or> js_startsWith key ''summary:'')"

text \<open>
  \<^verbatim>\<open>for (const key of this.cache.keys()) if (...) this.cache.delete(key)\<close>: the loop
  visits every key the map held at the start, since it deletes no key but the one it
  stands on.
\<close>

fun invalidate_loop :: "string option \<Rightarrow> string list \<Rightarrow> 'd cache \<Rightarrow> 'd cache" where
  "invalidate_loop project [] c = c"
| "invalidate_loop project (key # keys) c =
     invalidate_loop project keys (if invalidated project key then Map_delete key c else c)"

definition invalidateCache :: "string option \<Rightarrow> 'd cache \<Rightarrow> 'd cache" where
  "invalidateCache project c = invalidate_loop project (Map_keys c) c"

section \<open>TokenMetricsService: the store and the read-token heuristic\<close>

text \<open>
  A row of the table \<^verbatim>\<open>observations\<close>, with the columns the queries name. The four
  sequence columns hold JSON text.
\<close>

record observation =
  c_id :: int
  c_type :: "string option"
  c_title :: "string option"
  c_subtitle :: "string option"
  c_narrative :: "string option"
  c_facts :: "string option"
  c_concepts :: "string option"
  c_files_read :: "string option"
  c_files_modified :: "string option"
  c_discovery_tokens :: "int option"
  c_created_at_epoch :: int
  c_project :: "string option"

text \<open>
  The session store: its table, and whether the connection is open. A statement run on
  a closed connection throws.
\<close>

record SessionStore =
  observations_table :: "observation list"
  db_open :: bool

text \<open>
  The object a query returns for a row has a property for each selected column and no
  other: reading a property the query did not select gives \<^verbatim>\<open>undefined\<close>. The interface
  \<^verbatim>\<open>ObservationRow\<close> declares nine properties; \<^verbatim>\<open>calculateReadTokens\<close> reads three more
  (\<^verbatim>\<open>concepts\<close>, \<^verbatim>\<open>files_read\<close>, \<^verbatim>\<open>files_modified\<close>).
\<close>

record ObservationRow =
  row_id :: "int option"
  row_type :: "string option"
  title :: "string option"
  subtitle :: "string option"
  narrative :: "string option"
  facts :: "string option"
  concepts :: "string option"
  files_read :: "string option"
  files_modified :: "string option"
  discovery_tokens :: "int option"
  created_at_epoch :: "int option"
  row_project :: "string option"

definition CHARS_PER_TOKEN :: int where
  "CHARS_PER_TOKEN = 4"

definition CACHE_TTL_MS :: int where
  "CACHE_TTL_MS = 30000"

definition PROJECTION_CACHE_TTL_MS :: int where
  "PROJECTION_CACHE_TTL_MS = 300000"

text \<open>The helper of \<^verbatim>\<open>calculateReadTokens\<close>, with its three fallbacks.\<close>

definition getJsonArrayContentLength :: "platform \<Rightarrow> string option \<Rightarrow> int" where
  "getJsonArrayContentLength pf jsonStr =
     (case jsonStr of
        None \<Rightarrow> 0
      | Some s \<Rightarrow>
          if s = [] then 0
          else (case JSON_parse pf s of
                  Some (JArr arr) \<Rightarrow> int (length (Array_join (Number_toString pf) [] arr))
                | Some v \<Rightarrow> int (length s)
                | None \<Rightarrow> int (length s)))"

text \<open>\<^verbatim>\<open>obs.title?.length || 0\<close>.\<close>

definition length_or_0 :: "string option \<Rightarrow> int" where
  "length_or_0 s = (case s of None \<Rightarrow> 0 | Some v \<Rightarrow> int (length v))"

text \<open>
  \<^verbatim>\<open>Math.ceil(size / CHARS_PER_TOKEN)\<close>: the quotient of an integer by four is a double
  itself, so no rounding stands between the quotient and the ceiling.
\<close>

definition calculateReadTokens :: "platform \<Rightarrow> ObservationRow \<Rightarrow> int" where
  "calculateReadTokens pf obs =
     (let size =
        length_or_0 (title obs) + length_or_0 (subtitle obs) + length_or_0 (narrative obs)
        + getJsonArrayContentLength pf (facts obs)
        + getJsonArrayContentLength pf (concepts obs)
        + getJsonArrayContentLength pf (files_read obs)
        + getJsonArrayContentLength pf (files_modified obs)
      in Math_ceil (of_int size / of_int CHARS_PER_TOKEN))"

definition estimateOriginalSize :: "int \<Rightarrow> int" where
  "estimateOriginalSize discoveryTokens = discoveryTokens * 2"

subsection \<open>parseSince\<close>

definition is_digit :: "char \<Rightarrow> bool" where
  "is_digit c = (c \<in> set ''0123456789'')"

definition digit_value :: "char \<Rightarrow> int" where
  "digit_value c = int (of_char c) - 48"

text \<open>\<^verbatim>\<open>parseInt(digits, 10)\<close> on a string of decimal digits.\<close>

definition parseInt10 :: "string \<Rightarrow> int" where
  "parseInt10 ds = foldl (\<lambda>acc c. 10 * acc + digit_value c) 0 ds"

text \<open>
  The match of \<^verbatim>\<open>/^(\d+)(h|d|w)$/\<close>: one or more digits, then one unit letter, and
  nothing else. The result is the pair of the two groups.
\<close>

definition match_duration :: "string \<Rightarrow> (string \<times> char) option" where
  "match_duration s =
     (if s \<noteq> [] \<and> butlast s \<noteq> [] \<and> list_all is_digit (butlast s)
         \<and> last s \<in> set ''hdw''
      then Some (butlast s, last s) else None)"

definition parseSince :: "platform \<Rightarrow> int \<Rightarrow> string option \<Rightarrow> int option" where
  "parseSince pf now since =
     (case since of
        None \<Rightarrow> None
      | Some s \<Rightarrow>
          if s = [] then None
          else (case match_duration s of
                  Some (digits, unit) \<Rightarrow>
                    (let v = parseInt10 digits;
                         ms = (if unit = CHR ''h'' then v * 60 * 60 * 1000
                               else if unit = CHR ''d'' then v * 24 * 60 * 60 * 1000
                               else v * 7 * 24 * 60 * 60 * 1000)
                     in Some (now - ms))
                | None \<Rightarrow> Date_parse pf s))"

text \<open>\<^verbatim>\<open>if (sinceEpoch)\<close>: \<^verbatim>\<open>null\<close> and \<open>0\<close> are falsy.\<close>

definition truthy_num :: "int option \<Rightarrow> bool" where
  "truthy_num x = (case x of None \<Rightarrow> False | Some v \<Rightarrow> v \<noteq> 0)"

section \<open>TokenMetricsService: the queries\<close>

record TokenSummary =
  totalObservations :: int
  totalReadTokens :: int
  totalDiscoveryTokens :: int
  savings :: int
  savingsPercent :: int
  efficiencyGain :: number
  avgReadTokensPerObs :: int
  avgDiscoveryTokensPerObs :: int

record ModeTotals =
  totalTokens :: int
  discoveryTokens :: int
  continuationTokens :: int

record EndlessModeProjection =
  withoutEndlessMode :: ModeTotals
  withEndlessMode :: ModeTotals
  tokensSaved :: int
  percentSaved :: number
  efficiencyGain_p :: number

text \<open>
  The cache is a \<^verbatim>\<open>Map<string, CacheEntry<unknown>>\<close>; \<^verbatim>\<open>getCached<T>\<close> returns the
  entry's data under an unchecked cast. The values the modelled queries store:
\<close>

datatype cached_value = CSummary TokenSummary | CProjection EndlessModeProjection

record TokenMetricsService =
  cache :: "cached_value cache"
  lastBroadcastTime :: int

definition BROADCAST_THROTTLE_MS :: int where
  "BROADCAST_THROTTLE_MS = 1000"

definition shouldBroadcast :: "int \<Rightarrow> TokenMetricsService \<Rightarrow> bool \<times> TokenMetricsService" where
  "shouldBroadcast now svc =
     (if now - lastBroadcastTime svc \<ge> BROADCAST_THROTTLE_MS
      then (True, svc\<lparr>lastBroadcastTime := now\<rparr>)
      else (False, svc))"

subsection \<open>The SQL the queries run\<close>

datatype condition = ProjectEq string | CreatedAtGe int

fun holds :: "condition \<Rightarrow> observation \<Rightarrow> bool" where
  "holds (ProjectEq p) r = (c_project r = Some p)"
| "holds (CreatedAtGe t) r = (t \<le> c_created_at_epoch r)"

text \<open>\<^verbatim>\<open>WHERE\<close> with the conditions joined by \<^verbatim>\<open>AND\<close>; no clause when there is none.\<close>

definition where_clause :: "condition list \<Rightarrow> observation list \<Rightarrow> observation list" where
  "where_clause conditions rows = filter (\<lambda>r. list_all (\<lambda>c. holds c r) conditions) rows"

text \<open>
  \<^verbatim>\<open>ORDER BY created_at_epoch DESC\<close> (rows of equal time keep the table's order) and
  \<^verbatim>\<open>LIMIT n\<close> (a negative limit is no limit).
\<close>

definition order_by_created_desc :: "observation list \<Rightarrow> observation list" where
  "order_by_created_desc rows = sort_key (\<lambda>r. - c_created_at_epoch r) rows"

definition sql_limit :: "int \<Rightarrow> 'a list \<Rightarrow> 'a list" where
  "sql_limit n xs = (if n < 0 then xs else take (nat n) xs)"

text \<open>
  \<^verbatim>\<open>SELECT id, type, title, subtitle, narrative, facts, discovery_tokens,
  created_at_epoch, project\<close> of \<^verbatim>\<open>getSummary\<close>, and
  \<^verbatim>\<open>SELECT id, type, title, subtitle, narrative, facts, discovery_tokens\<close> of
  \<^verbatim>\<open>getEndlessModeProjection\<close>.
\<close>

definition select_summary :: "observation \<Rightarrow> ObservationRow" where
  "select_summary r =
     \<lparr>row_id = Some (c_id r), row_type = c_type r, title = c_title r,
      subtitle = c_subtitle r, narrative = c_narrative r, facts = c_facts r,
      concepts = None, files_read = None, files_modified = None,
      discovery_tokens = c_discovery_tokens r,
      created_at_epoch = Some (c_created_at_epoch r), row_project = c_project r\<rparr>"

definition select_projection :: "observation \<Rightarrow> ObservationRow" where
  "select_projection r =
     \<lparr>row_id = Some (c_id r), row_type = c_type r, title = c_title r,
      subtitle = c_subtitle r, narrative = c_narrative r, facts = c_facts r,
      concepts = None, files_read = None, files_modified = None,
      discovery_tokens = c_discovery_tokens r,
      created_at_epoch = None, row_project = None\<rparr>"

definition run_query :: "SessionStore \<Rightarrow> (observation list \<Rightarrow> 'a) \<Rightarrow> js_error + 'a" where
  "run_query store q =
     (if db_open store then Inr (q (observations_table store)) else Inl DatabaseError)"

text \<open>\<^verbatim>\<open>SUM\<close> skips \<^verbatim>\<open>NULL\<close> and is \<^verbatim>\<open>NULL\<close> when it has added nothing.\<close>

fun sql_sum :: "int option list \<Rightarrow> int option" where
  "sql_sum [] = None"
| "sql_sum (None # xs) = sql_sum xs"
| "sql_sum (Some v # xs) = Some (v + or_0 (sql_sum xs))"

text \<open>
  \<^verbatim>\<open>CAST((LENGTH(COALESCE(title, '')) + LENGTH(COALESCE(subtitle, '')) +
  LENGTH(COALESCE(narrative, '')) + LENGTH(COALESCE(facts, '[]'))) / 4.0 AS INTEGER)\<close>:
  the cast truncates.
\<close>

definition sql_read_tokens :: "observation \<Rightarrow> int" where
  "sql_read_tokens r =
     \<lfloor>(of_int (length_or_0 (c_title r) + length_or_0 (c_subtitle r)
         + length_or_0 (c_narrative r)
         + (case c_facts r of None \<Rightarrow> 2 | Some f \<Rightarrow> int (length f))) :: rat)
       / of_int CHARS_PER_TOKEN\<rfloor>"

subsection \<open>getSummary\<close>

text \<open>\<^verbatim>\<open>${x || 'all'}\<close> in a cache key.\<close>

definition or_all :: "string option \<Rightarrow> string" where
  "or_all x = (case x of None \<Rightarrow> ''all'' | Some v \<Rightarrow> if v = [] then ''all'' else v)"

fun summary_loop :: "platform \<Rightarrow> ObservationRow list \<Rightarrow> int \<times> int \<Rightarrow> int \<times> int" where
  "summary_loop pf [] (totalRead, totalDiscovery) = (totalRead, totalDiscovery)"
| "summary_loop pf (obs # rest) (totalRead, totalDiscovery) =
     summary_loop pf rest
       (totalRead + calculateReadTokens pf obs, totalDiscovery + or_0 (discovery_tokens obs))"

definition summarize :: "platform \<Rightarrow> ObservationRow list \<Rightarrow> TokenSummary" where
  "summarize pf obs_rows =
     (let (totalRead, totalDiscovery) = summary_loop pf obs_rows (0, 0);
          n = int (length obs_rows);
          sav = totalDiscovery - totalRead
      in \<lparr>totalObservations = n,
          totalReadTokens = totalRead,
          totalDiscoveryTokens = totalDiscovery,
          savings = sav,
          savingsPercent =
            (if totalDiscovery > 0
             then Math_round (js_mul (js_div (of_int sav) (of_int totalDiscovery)) 100)
             else 0),
          efficiencyGain =
            (if totalRead > 0
             then js_div (of_int (Math_round
                    (js_mul (js_div (of_int totalDiscovery) (of_int totalRead)) 10))) 10
             else 0),
          avgReadTokensPerObs =
            (if n > 0 then Math_round (js_div (of_int totalRead) (of_int n)) else 0),
          avgDiscoveryTokensPerObs =
            (if n > 0 then Math_round (js_div (of_int totalDiscovery) (of_int n)) else 0)\<rparr>)"

definition summary_conditions :: "string option \<Rightarrow> int option \<Rightarrow> condition list" where
  "summary_conditions project sinceEpoch =
     (case project of Some p \<Rightarrow> if p \<noteq> [] then [ProjectEq p] else [] | None \<Rightarrow> [])
     @ (case sinceEpoch of Some t \<Rightarrow> if t \<noteq> 0 then [CreatedAtGe t] else [] | None \<Rightarrow> [])"

text \<open>
  \<^verbatim>\<open>getSummary(project?, since?)\<close>. The clock is read once per call in the model; the
  source reads it in \<^verbatim>\<open>getCached\<close>, \<^verbatim>\<open>parseSince\<close> and \<^verbatim>\<open>setCache\<close> of one synchronous
  call.
\<close>

definition getSummary ::
  "platform \<Rightarrow> int \<Rightarrow> SessionStore \<Rightarrow> string option \<Rightarrow> string option \<Rightarrow> TokenMetricsService
     \<Rightarrow> js_error + (cached_value \<times> TokenMetricsService)" where
  "getSummary pf now store project since svc =
     (let cacheKey = ''summary:'' @ or_all project @ '':'' @ or_all since
      in case getCached now cacheKey CACHE_TTL_MS (cache svc) of
           Some cached \<Rightarrow> Inr (cached, svc)
         | None \<Rightarrow>
             (let sinceEpoch = parseSince pf now since;
                  conditions = summary_conditions project sinceEpoch
              in case run_query store (\<lambda>rows. map select_summary (where_clause conditions rows)) of
                   Inl e \<Rightarrow> Inl e
                 | Inr obs_rows \<Rightarrow>
                     (let result = CSummary (summarize pf obs_rows)
                      in Inr (result, svc\<lparr>cache := setCache now cacheKey result (cache svc)\<rparr>))))"

subsection \<open>getQuickSummary\<close>

record QuickSummary =
  quick_totalDiscoveryTokens :: int
  quick_totalReadTokens :: int
  quick_savings :: int
  quick_savingsPercent :: int

definition getQuickSummary :: "SessionStore \<Rightarrow> js_error + QuickSummary" where
  "getQuickSummary store =
     (case run_query store
             (\<lambda>rows. (sql_sum (map c_discovery_tokens rows),
                       sql_sum (map (\<lambda>r. Some (sql_read_tokens r)) rows))) of
        Inl e \<Rightarrow> Inl e
      | Inr (discovery, read_tokens) \<Rightarrow>
          (let totalDiscovery = or_0 discovery;
               totalRead = or_0 read_tokens;
               sav = totalDiscovery - totalRead
           in Inr \<lparr>quick_totalDiscoveryTokens = totalDiscovery,
                   quick_totalReadTokens = totalRead,
                   quick_savings = sav,
                   quick_savingsPercent =
                     (if totalDiscovery > 0
                      then Math_round (js_mul (js_div (of_int sav) (of_int totalDiscovery)) 100)
                      else 0)\<rparr>))"

subsection \<open>getEndlessModeProjection\<close>

text \<open>The two loops; the state is (cumulative context, total discovery, total continuation).\<close>

fun without_loop :: "ObservationRow list \<Rightarrow> int \<times> int \<times> int \<Rightarrow> int \<times> int \<times> int" where
  "without_loop [] (ctx, disc, cont) = (ctx, disc, cont)"
| "without_loop (obs # rest) (ctx, disc, cont) =
     (let discoveryTokens = or_0 (discovery_tokens obs);
          originalSize = estimateOriginalSize discoveryTokens;
          disc' = disc + discoveryTokens;
          ctx' = ctx + originalSize;
          cont' = cont + ctx'
      in without_loop rest (ctx', disc', cont'))"

fun with_loop :: "platform \<Rightarrow> ObservationRow list \<Rightarrow> int \<times> int \<times> int \<Rightarrow> int \<times> int \<times> int" where
  "with_loop pf [] (ctx, disc, cont) = (ctx, disc, cont)"
| "with_loop pf (obs # rest) (ctx, disc, cont) =
     (let discoveryTokens = or_0 (discovery_tokens obs);
          compressedSize = calculateReadTokens pf obs;
          disc' = disc + discoveryTokens;
          ctx' = ctx + compressedSize;
          cont' = cont + ctx'
      in with_loop pf rest (ctx', disc', cont'))"

definition empty_projection :: EndlessModeProjection where
  "empty_projection =
     \<lparr>withoutEndlessMode = \<lparr>totalTokens = 0, discoveryTokens = 0, continuationTokens = 0\<rparr>,
      withEndlessMode = \<lparr>totalTokens = 0, discoveryTokens = 0, continuationTokens = 0\<rparr>,
      tokensSaved = 0, percentSaved = 0, efficiencyGain_p = 0\<rparr>"

definition project_rows :: "platform \<Rightarrow> ObservationRow list \<Rightarrow> EndlessModeProjection" where
  "project_rows pf obs_rows =
     (if length obs_rows = 0 then empty_projection
      else
        (let (withoutCtx, withoutTotalDiscovery, withoutTotalContinuation) =
               without_loop obs_rows (0, 0, 0);
             (withCtx, withTotalDiscovery, withTotalContinuation) =
               with_loop pf obs_rows (0, 0, 0);
             withoutTotal = withoutTotalDiscovery + withoutTotalContinuation;
             withTotal = withTotalDiscovery + withTotalContinuation;
             saved = withoutTotal - withTotal
         in \<lparr>withoutEndlessMode =
               \<lparr>totalTokens = withoutTotal, discoveryTokens = withoutTotalDiscovery,
                continuationTokens = withoutTotalContinuation\<rparr>,
             withEndlessMode =
               \<lparr>totalTokens = withTotal, discoveryTokens = withTotalDiscovery,
                continuationTokens = withTotalContinuation\<rparr>,
             tokensSaved = saved,
             percentSaved =
               (if withoutTotal > 0
                then js_div (of_int (Math_round
                       (js_mul (js_div (of_int saved) (of_int withoutTotal)) 1000))) 10
                else 0),
             efficiencyGain_p =
               (if withTotal > 0
                then js_div (of_int (Math_round
                       (js_mul (js_div (of_int withoutTotal) (of_int withTotal)) 10))) 10
                else 0)\<rparr>))"

definition projection_conditions :: "string option \<Rightarrow> condition list" where
  "projection_conditions project =
     (case project of Some p \<Rightarrow> if p \<noteq> [] then [ProjectEq p] else [] | None \<Rightarrow> [])"

definition recent_observations ::
  "string option \<Rightarrow> int \<Rightarrow> observation list \<Rightarrow> ObservationRow list" where
  "recent_observations project observationCount rows =
     map select_projection
       (sql_limit observationCount
          (order_by_created_desc (where_clause (projection_conditions project) rows)))"

text \<open>\<^verbatim>\<open>`projection:${project || 'all'}:${observationCount}`\<close> needs the decimal form of the count.\<close>

definition getEndlessModeProjection ::
  "platform \<Rightarrow> int \<Rightarrow> SessionStore \<Rightarrow> string option \<Rightarrow> int \<Rightarrow> TokenMetricsService
     \<Rightarrow> js_error + (cached_value \<times> TokenMetricsService)" where
  "getEndlessModeProjection pf now store project observationCount svc =
     (let cacheKey = ''projection:'' @ or_all project @ '':''
                       @ Number_toString pf (of_int observationCount)
      in case getCached now cacheKey PROJECTION_CACHE_TTL_MS (cache svc) of
           Some cached \<Rightarrow> Inr (cached, svc)
         | None \<Rightarrow>
             (case run_query store (recent_observations project observationCount) of
                Inl e \<Rightarrow> Inl e
              | Inr obs_rows \<Rightarrow>
                  (let result = CProjection (project_rows pf obs_rows)
                   in Inr (result, svc\<lparr>cache := setCache now cacheKey result (cache svc)\<rparr>))))"

section \<open>PerformanceTracker\<close>

record QueueHistoryPoint =
  timestamp_q :: int
  queueDepth :: int
  activeSessions :: int

record ProcessingTimeRecord =
  timestamp_p :: int
  duration :: int
  toolName :: string
  discoveryTokens_p :: int
  observationCount :: int

record PerformanceStats =
  avgProcessingTime :: int
  p50ProcessingTime :: int
  p95ProcessingTime :: int
  avgQueueDepth :: number
  peakQueueDepth :: int
  observationsPerMinute :: number

record QueueStats =
  avgQueueDepth_q :: number
  peakQueueDepth_q :: int

record QueueHistoryResponse =
  history :: "QueueHistoryPoint list"
  stats_q :: QueueStats

record ProcessingTimesResponse =
  times :: "ProcessingTimeRecord list"
  stats :: PerformanceStats

record PerformanceTracker =
  queueHistory :: "QueueHistoryPoint list"
  processingTimes :: "ProcessingTimeRecord list"
  lastSampleTime :: int

definition MAX_QUEUE_HISTORY :: nat where "MAX_QUEUE_HISTORY = 1000"
definition MAX_PROCESSING_TIMES :: nat where "MAX_PROCESSING_TIMES = 500"
definition SAMPLE_INTERVAL_MS :: int where "SAMPLE_INTERVAL_MS = 5000"

text \<open>The two recorders: append, and drop the oldest entry beyond the cap.\<close>

definition recordQueueSample :: "int \<Rightarrow> int \<Rightarrow> int \<Rightarrow> PerformanceTracker \<Rightarrow> PerformanceTracker" where
  "recordQueueSample now depth sessions tr =
     (if now - lastSampleTime tr < SAMPLE_INTERVAL_MS then tr
      else
        (let h = queueHistory tr
                   @ [\<lparr>timestamp_q = now, queueDepth = depth, activeSessions = sessions\<rparr>]
         in tr\<lparr>lastSampleTime := now,
                queueHistory := (if length h > MAX_QUEUE_HISTORY then tl h else h)\<rparr>))"

definition recordProcessingTime :: "ProcessingTimeRecord \<Rightarrow> PerformanceTracker \<Rightarrow> PerformanceTracker" where
  "recordProcessingTime r tr =
     (let ts = processingTimes tr @ [r]
      in tr\<lparr>processingTimes := (if length ts > MAX_PROCESSING_TIMES then tl ts else ts)\<rparr>)"

text \<open>
  \<^verbatim>\<open>arr.slice(start)\<close>: a negative start counts from the end; the result runs to the end.
\<close>

definition js_slice_from :: "int \<Rightarrow> 'a list \<Rightarrow> 'a list" where
  "js_slice_from start xs =
     (let len = int (length xs);
          k = (if start < 0 then max (len + start) 0 else min start len)
      in drop (nat k) xs)"

text \<open>\<^verbatim>\<open>x || d\<close> on an optional number, and \<^verbatim>\<open>x || 1\<close> on a number.\<close>

definition or_default :: "int option \<Rightarrow> int \<Rightarrow> int" where
  "or_default x d = (case x of None \<Rightarrow> d | Some v \<Rightarrow> if v = 0 then d else v)"

definition or_1 :: "int \<Rightarrow> int" where
  "or_1 x = (if x = 0 then 1 else x)"

text \<open>\<^verbatim>\<open>Math.max(...xs)\<close>, called on a non-empty array only.\<close>

fun Math_max :: "int list \<Rightarrow> int" where
  "Math_max [] = 0"
| "Math_max (x # xs) = fold max xs x"

definition percentile :: "int list \<Rightarrow> number \<Rightarrow> int" where
  "percentile sortedArray p =
     (if length sortedArray = 0 then 0
      else
        (let index = Math_ceil (js_mul (js_div p 100) (of_nat (length sortedArray))) - 1
         in sortedArray ! nat (max 0 (min index (int (length sortedArray) - 1)))))"

text \<open>
  \<^verbatim>\<open>getQueueHistory(since?, limit = 100)\<close> and \<^verbatim>\<open>getProcessingTimes(since?, limit = 100)\<close> at
  clock reading \<open>now\<close>. \<^verbatim>\<open>parseSince\<close> of this class has the body of the one above.
\<close>

definition getQueueHistory ::
  "platform \<Rightarrow> int \<Rightarrow> string option \<Rightarrow> int \<Rightarrow> PerformanceTracker \<Rightarrow> QueueHistoryResponse" where
  "getQueueHistory pf now since limit tr =
     (let sinceEpoch = or_default (parseSince pf now since) (now - 60 * 60 * 1000);
          filtered = js_slice_from (- limit)
                       (filter (\<lambda>p. timestamp_q p \<ge> sinceEpoch) (queueHistory tr));
          depths = map queueDepth filtered
      in \<lparr>history = filtered,
          stats_q =
            \<lparr>avgQueueDepth_q =
               (if length depths > 0
                then js_div (of_int (Math_round
                       (js_mul (js_div (of_int (sum_list depths)) (of_nat (length depths))) 10))) 10
                else 0),
             peakQueueDepth_q = (if length depths > 0 then Math_max depths else 0)\<rparr>\<rparr>)"

definition getProcessingTimes ::
  "platform \<Rightarrow> int \<Rightarrow> string option \<Rightarrow> int \<Rightarrow> PerformanceTracker \<Rightarrow> ProcessingTimesResponse" where
  "getProcessingTimes pf now since limit tr =
     (let sinceEpoch = or_default (parseSince pf now since) (now - 24 * 60 * 60 * 1000);
          filtered = js_slice_from (- limit)
                       (filter (\<lambda>p. timestamp_p p \<ge> sinceEpoch) (processingTimes tr));
          durations = sort (map duration filtered);
          zero = \<lparr>avgProcessingTime = 0, p50ProcessingTime = 0, p95ProcessingTime = 0,
                  avgQueueDepth = 0, peakQueueDepth = 0, observationsPerMinute = 0\<rparr>;
          st =
            (if length durations > 0
             then
               (let timeSpan = timestamp_p (last filtered) - timestamp_p (hd filtered);
                    effectiveTimeSpan = max timeSpan 1;
                    totalObservations = sum_list (map (\<lambda>r. or_1 (observationCount r)) filtered)
                in zero
                   \<lparr>avgProcessingTime :=
                      Math_round (js_div (of_int (sum_list durations)) (of_nat (length durations))),
                    p50ProcessingTime := percentile durations 50,
                    p95ProcessingTime := percentile durations 95,
                    observationsPerMinute :=
                      js_div (of_int (Math_round
                        (js_mul (js_div (of_int totalObservations)
                                   (js_div (of_int effectiveTimeSpan) 60000)) 10))) 10\<rparr>)
             else zero);
          queueStats = getQueueHistory pf now since 100 tr
      in \<lparr>times = filtered,
          stats = st\<lparr>avgQueueDepth := avgQueueDepth_q (stats_q queueStats),
                     peakQueueDepth := peakQueueDepth_q (stats_q queueStats)\<rparr>\<rparr>)"

section \<open>SDKAgent: token accounting and persistence\<close>

text \<open>
  The session object the agent works on (its type is declared outside the sources; the
  fields are the ones \<^verbatim>\<open>SDKAgent\<close> reads and writes). \<^verbatim>\<open>pendingProcessingIds\<close> is a set of
  message ids, kept here in insertion order.
\<close>

record ActiveSession =
  sessionDbId :: int
  claudeSessionId :: string
  sdkSessionId :: "string option"
  session_project :: string
  userPrompt :: string
  lastPromptNumber :: nullable_number
  cumulativeInputTokens :: int
  cumulativeOutputTokens :: int
  pendingProcessingIds :: "int list"

text \<open>The \<^verbatim>\<open>usage\<close> record of an assistant message, and the message with its text extracted.\<close>

record Usage =
  input_tokens :: "int option"
  output_tokens :: "int option"
  cache_creation_input_tokens :: "int option"
  cache_read_input_tokens :: "int option"

record AssistantMessage =
  textContent :: string
  usage :: "Usage option"

text \<open>
  Modelled from the spec: the response parser is not among the sources. It is a total
  function from the reply text to a list of observations and an optional summary; the
  model takes it as a parameter.
\<close>

record ParsedObservation =
  parsed_type :: string
  parsed_title :: "string option"
  parsed_subtitle :: "string option"
  parsed_narrative :: "string option"
  parsed_facts :: "string list"
  parsed_concepts :: "string list"
  parsed_files :: "string list"

record ParsedSummary =
  request :: "string option"
  completed :: "string option"
  next_steps :: "string option"

text \<open>
  Modelled from the spec: \<^verbatim>\<open>storeObservation\<close> and \<^verbatim>\<open>storeSummary\<close> of the session store
  are not among the sources. The store keeps what it was asked to insert,
  \<open>insertObservation(sessionId, project, payload, promptNumber, discoveryTokens)\<close>,
  returns the new row's id, and throws when it cannot write.
\<close>

record observation_insert =
  ins_session :: string
  ins_project :: string
  ins_payload :: ParsedObservation
  ins_promptNumber :: nullable_number
  ins_discoveryTokens :: int

record summary_insert =
  sum_session :: string
  sum_project :: string
  sum_payload :: ParsedSummary
  sum_promptNumber :: nullable_number
  sum_discoveryTokens :: int

text \<open>
  What else a reply makes the agent do, in order: the vector sync (fire and forget), the
  live events, the calls into the worker and into the pending-message store.
\<close>

datatype agent_effect =
    SyncObservation int int
  | BroadcastNewObservation int nullable_number
  | BroadcastTokenUpdateCall
  | RecordObservationProcessed string int int
  | SyncSummary int int
  | BroadcastNewSummary int nullable_number
  | MarkProcessed int
  | CleanupProcessed int
  | BroadcastProcessingStatusCall

record agent_world =
  inserted_observations :: "observation_insert list"
  inserted_summaries :: "summary_insert list"
  effects :: "agent_effect list"
  store_writable :: bool

record parser =
  parseObservations :: "string \<Rightarrow> string \<Rightarrow> ParsedObservation list"
  parseSummary :: "string \<Rightarrow> int \<Rightarrow> ParsedSummary option"

text \<open>
  The \<^verbatim>\<open>if (usage) { ... }\<close> block of \<^verbatim>\<open>startSession\<close>: input and output tokens are added,
  cache creation counts as input, cache read is only logged.
\<close>

definition track_usage :: "Usage option \<Rightarrow> ActiveSession \<Rightarrow> ActiveSession" where
  "track_usage u session =
     (case u of
        None \<Rightarrow> session
      | Some us \<Rightarrow>
          (let s1 = session\<lparr>cumulativeInputTokens :=
                              cumulativeInputTokens session + or_0 (input_tokens us)\<rparr>;
               s2 = s1\<lparr>cumulativeOutputTokens :=
                          cumulativeOutputTokens s1 + or_0 (output_tokens us)\<rparr>
           in if truthy_num (cache_creation_input_tokens us)
              then s2\<lparr>cumulativeInputTokens :=
                         cumulativeInputTokens s2 + or_0 (cache_creation_input_tokens us)\<rparr>
              else s2))"

definition do_effects :: "agent_effect list \<Rightarrow> agent_world \<Rightarrow> agent_world" where
  "do_effects es w = w\<lparr>effects := effects w @ es\<rparr>"

definition storeObservation ::
  "observation_insert \<Rightarrow> agent_world \<Rightarrow> (js_error \<times> agent_world) + (int \<times> agent_world)" where
  "storeObservation ins w =
     (if store_writable w
      then Inr (int (length (inserted_observations w)) + 1,
                w\<lparr>inserted_observations := inserted_observations w @ [ins]\<rparr>)
      else Inl (StoreError, w))"

definition storeSummary ::
  "summary_insert \<Rightarrow> agent_world \<Rightarrow> (js_error \<times> agent_world) + (int \<times> agent_world)" where
  "storeSummary ins w =
     (if store_writable w
      then Inr (int (length (inserted_summaries w)) + 1,
                w\<lparr>inserted_summaries := inserted_summaries w @ [ins]\<rparr>)
      else Inl (StoreError, w))"

text \<open>
  \<^verbatim>\<open>processSDKResponse\<close>: the loop over the parsed observations; the record of the
  processing time; the summary; the marking of the pending messages. \<open>has_worker\<close> says
  whether a worker was passed. The source's \<^verbatim>\<open>discoveryTokens\<close> is \<open>discoveryDelta\<close> here;
  the durations it measures with \<^verbatim>\<open>Date.now()\<close> only reach the log and the performance
  tracker and are left out.
\<close>

fun store_observations ::
  "bool \<Rightarrow> ActiveSession \<Rightarrow> int \<Rightarrow> ParsedObservation list \<Rightarrow> agent_world \<Rightarrow> agent_world outcome" where
  "store_observations has_worker session discoveryDelta [] w = Inr w"
| "store_observations has_worker session discoveryDelta (obs # rest) w =
     (case storeObservation
             \<lparr>ins_session = claudeSessionId session, ins_project = session_project session,
              ins_payload = obs, ins_promptNumber = lastPromptNumber session,
              ins_discoveryTokens = discoveryDelta\<rparr> w of
        Inl err \<Rightarrow> Inl err
      | Inr (obsId, w1) \<Rightarrow>
          store_observations has_worker session discoveryDelta rest
            (do_effects
               (SyncObservation obsId discoveryDelta
                # (if has_worker
                   then [BroadcastNewObservation obsId (lastPromptNumber session),
                         BroadcastTokenUpdateCall]
                   else []))
               w1))"

definition markMessagesProcessed :: "bool \<Rightarrow> ActiveSession \<times> agent_world \<Rightarrow> ActiveSession \<times> agent_world" where
  "markMessagesProcessed has_worker sw =
     (let (session, w) = sw;
          (session1, w1) =
            (if length (pendingProcessingIds session) > 0
             then (session\<lparr>pendingProcessingIds := []\<rparr>,
                   do_effects (map MarkProcessed (pendingProcessingIds session)
                               @ [CleanupProcessed 100]) w)
             else (session, w))
      in (session1,
          if has_worker then do_effects [BroadcastProcessingStatusCall] w1 else w1))"

definition record_processed ::
  "bool \<Rightarrow> int \<Rightarrow> ParsedObservation list \<Rightarrow> agent_world \<Rightarrow> agent_world" where
  "record_processed has_worker discoveryDelta obs_list w =
     (if has_worker \<and> length obs_list > 0
      then do_effects
             [RecordObservationProcessed
                (join_with '','' (map (\<lambda>ob. if parsed_type ob = [] then ''unknown''
                                            else parsed_type ob) obs_list))
                discoveryDelta (int (length obs_list))] w
      else w)"

definition store_parsed_summary ::
  "bool \<Rightarrow> ActiveSession \<Rightarrow> int \<Rightarrow> ParsedSummary option \<Rightarrow> agent_world \<Rightarrow> agent_world outcome" where
  "store_parsed_summary has_worker session discoveryDelta parsed w =
     (case parsed of
        None \<Rightarrow> Inr w
      | Some summary \<Rightarrow>
          (case storeSummary
                  \<lparr>sum_session = claudeSessionId session,
                   sum_project = session_project session, sum_payload = summary,
                   sum_promptNumber = lastPromptNumber session,
                   sum_discoveryTokens = discoveryDelta\<rparr> w of
             Inl err \<Rightarrow> Inl err
           | Inr (summaryId, w1) \<Rightarrow>
               Inr (do_effects
                      (SyncSummary summaryId discoveryDelta
                       # (if has_worker
                          then [BroadcastNewSummary summaryId (lastPromptNumber session)]
                          else []))
                      w1)))"

definition processSDKResponse ::
  "parser \<Rightarrow> bool \<Rightarrow> string \<Rightarrow> int \<Rightarrow> ActiveSession \<times> agent_world
     \<Rightarrow> (ActiveSession \<times> agent_world) outcome" where
  "processSDKResponse ps has_worker text discoveryDelta sw =
     (let (session, w) = sw;
          obs_list = parseObservations ps text (claudeSessionId session)
      in case store_observations has_worker session discoveryDelta obs_list w of
           Inl (err, w1) \<Rightarrow> Inl (err, (session, w1))
         | Inr w1 \<Rightarrow>
             (case store_parsed_summary has_worker session discoveryDelta
                     (parseSummary ps text (sessionDbId session))
                     (record_processed has_worker discoveryDelta obs_list w1) of
                Inl (err, w2) \<Rightarrow> Inl (err, (session, w2))
              | Inr w2 \<Rightarrow> Inr (markMessagesProcessed has_worker (session, w2))))"

text \<open>The body of \<^verbatim>\<open>startSession\<close>'s loop for one assistant message.\<close>

definition handle_assistant ::
  "parser \<Rightarrow> bool \<Rightarrow> AssistantMessage \<Rightarrow> ActiveSession \<times> agent_world
     \<Rightarrow> (ActiveSession \<times> agent_world) outcome" where
  "handle_assistant ps has_worker msg sw =
     (let (session, w) = sw;
          responseSize = length (textContent msg);
          tokensBeforeResponse = cumulativeInputTokens session + cumulativeOutputTokens session;
          session1 = track_usage (usage msg) session;
          discoveryDelta =
            (cumulativeInputTokens session1 + cumulativeOutputTokens session1)
            - tokensBeforeResponse
      in if responseSize > 0
         then processSDKResponse ps has_worker (textContent msg) discoveryDelta (session1, w)
         else Inr (markMessagesProcessed has_worker (session1, w)))"

section \<open>SDKAgent: the message generator\<close>

text \<open>
  The pending messages the generator consumes, and the frames it yields: each frame is
  the prompt built from the listed values (the prompt builders are outside the sources).
  \<open>prompt_number\<close> is \<open>None\<close> when the message has no such property (\<^verbatim>\<open>undefined\<close>); a
  property that is there holds a number or \<^verbatim>\<open>null\<close>, and the generator assigns either.
\<close>

datatype message_type = observation_message | summarize_message

record PendingMessage =
  msg_type :: message_type
  tool_name :: "string option"
  tool_input :: string
  tool_response :: string
  prompt_number :: "nullable_number option"
  cwd :: "string option"
  last_user_message :: "string option"
  last_assistant_message :: "string option"

datatype frame =
    InitPrompt string string string
  | ContinuationPrompt string nullable_number string
  | ObservationPrompt "string option" string string "string option"
  | SummaryPrompt int string string string string

text \<open>\<^verbatim>\<open>x || ''\<close>.\<close>

definition or_empty :: "string option \<Rightarrow> string" where
  "or_empty x = (case x of None \<Rightarrow> [] | Some v \<Rightarrow> v)"

text \<open>
  \<^verbatim>\<open>createMessageGenerator\<close> over the messages its iterator delivers. Each yielded frame
  is paired with the session as it is at the moment of the yield.
\<close>

fun message_loop ::
  "PendingMessage list \<Rightarrow> ActiveSession \<Rightarrow> (frame \<times> ActiveSession) list \<times> ActiveSession" where
  "message_loop [] session = ([], session)"
| "message_loop (message # rest) session =
     (case msg_type message of
        observation_message \<Rightarrow>
          (let session1 = (case prompt_number message of
                             Some v \<Rightarrow> session\<lparr>lastPromptNumber := v\<rparr>
                           | None \<Rightarrow> session);
               (yielded, session') = message_loop rest session1
           in ((ObservationPrompt (tool_name message) (tool_input message)
                  (tool_response message) (cwd message), session1) # yielded, session'))
      | summarize_message \<Rightarrow>
          (let (yielded, session') = message_loop rest session
           in ((SummaryPrompt (sessionDbId session) (session_project session)
                  (userPrompt session) (or_empty (last_user_message message))
                  (or_empty (last_assistant_message message)), session) # yielded, session')))"

definition createMessageGenerator ::
  "PendingMessage list \<Rightarrow> ActiveSession \<Rightarrow> (frame \<times> ActiveSession) list \<times> ActiveSession" where
  "createMessageGenerator messages session =
     (let first = (if lastPromptNumber session = Number 1
                   then InitPrompt (session_project session) (claudeSessionId session)
                          (userPrompt session)
                   else ContinuationPrompt (userPrompt session) (lastPromptNumber session)
                          (claudeSessionId session));
          (yielded, session') = message_loop messages session
      in ((first, session) # yielded, session'))"

section \<open>WorkerService: the live push of token metrics\<close>

text \<open>
  Modelled from the spec: the class SSEBroadcaster is not among the sources. It fans a
  typed event out to the subscribed viewers; the model keeps the list of the events it
  was given, and a write that fails throws.
\<close>

datatype sse_event =
    TokenUpdate cached_value
  | ProcessingStatus bool int

record SSEBroadcaster =
  sent :: "sse_event list"

definition broadcast :: "bool \<Rightarrow> sse_event \<Rightarrow> SSEBroadcaster \<Rightarrow> js_error + SSEBroadcaster" where
  "broadcast faulty ev b =
     (if faulty then Inl BroadcastError else Inr (b\<lparr>sent := sent b @ [ev]\<rparr>))"

text \<open>What \<^verbatim>\<open>logger.warn\<close> is given; logging does not throw.\<close>

datatype log_entry = Warn string js_error

text \<open>The fields of the worker that \<^verbatim>\<open>broadcastTokenUpdate\<close> touches.\<close>

record WorkerService =
  tokenMetricsService :: "TokenMetricsService option"
  lastTokenBroadcast :: int
  sseBroadcaster :: SSEBroadcaster
  logged :: "log_entry list"

text \<open>
  What one call finds around it: the reading of \<^verbatim>\<open>Date.now()\<close>, the store as it is,
  and whether the broadcaster's write fails.
\<close>

record call_env =
  clock :: int
  db :: SessionStore
  sse_faulty :: bool

definition logger_warn :: "string \<Rightarrow> js_error \<Rightarrow> WorkerService \<Rightarrow> WorkerService" where
  "logger_warn msg e w = w\<lparr>logged := logged w @ [Warn msg e]\<rparr>"

text \<open>
  The body of the \<^verbatim>\<open>try\<close> block: \<^verbatim>\<open>getSummary()\<close> without arguments, then the
  broadcast of \<^verbatim>\<open>{type: 'token_update', tokens: summary}\<close>.
\<close>

definition token_update_body ::
  "platform \<Rightarrow> call_env \<Rightarrow> TokenMetricsService \<Rightarrow> WorkerService \<Rightarrow> WorkerService outcome" where
  "token_update_body pf env svc w =
     (case getSummary pf (clock env) (db env) None None svc of
        Inl e \<Rightarrow> Inl (e, w)
      | Inr (summary, svc') \<Rightarrow>
          (let w' = w\<lparr>tokenMetricsService := Some svc'\<rparr>
           in case broadcast (sse_faulty env) (TokenUpdate summary) (sseBroadcaster w') of
                Inl e \<Rightarrow> Inl (e, w')
              | Inr b' \<Rightarrow> Inr (w'\<lparr>sseBroadcaster := b'\<rparr>)))"

definition broadcastTokenUpdate ::
  "platform \<Rightarrow> call_env \<Rightarrow> WorkerService \<Rightarrow> WorkerService outcome" where
  "broadcastTokenUpdate pf env w =
     (let now = clock env
      in if now - lastTokenBroadcast w < 1000 then Inr w
         else
           (let w1 = w\<lparr>lastTokenBroadcast := now\<rparr>
            in case tokenMetricsService w1 of
                 None \<Rightarrow> Inr w1
               | Some svc \<Rightarrow>
                   try_catch (token_update_body pf env svc w1)
                     (\<lambda>e w'. Inr (logger_warn ''Failed to broadcast token update'' e w'))))"

text \<open>
  A life of the worker, as far as the live push goes: the background initialisation
  creates the metrics service, and the orchestrators call \<^verbatim>\<open>broadcastTokenUpdate\<close>. The
  run returns the frames sent, each with the clock reading of the call that sent it.
\<close>

datatype worker_event = InitializeBackground | BroadcastTokenUpdate call_env

definition emitted_by :: "WorkerService \<Rightarrow> WorkerService \<Rightarrow> sse_event list" where
  "emitted_by w w' = drop (length (sent (sseBroadcaster w))) (sent (sseBroadcaster w'))"

fun worker_run ::
  "platform \<Rightarrow> worker_event list \<Rightarrow> WorkerService \<Rightarrow> (int \<times> sse_event) list \<times> WorkerService" where
  "worker_run pf [] w = ([], w)"
| "worker_run pf (InitializeBackground # es) w =
     worker_run pf es (w\<lparr>tokenMetricsService := Some \<lparr>cache = [], lastBroadcastTime = 0\<rparr>\<rparr>)"
| "worker_run pf (BroadcastTokenUpdate env # es) w =
     (let w' = state_after (broadcastTokenUpdate pf env w);
          (frames, w'') = worker_run pf es w'
      in (map (\<lambda>ev. (clock env, ev)) (emitted_by w w') @ frames, w''))"

section \<open>The properties, as the specification words them\<close>

text \<open>
  The relations the specification states between the fields of a summary, in exact
  arithmetic: the savings, the two ratios (zero when the denominator is zero) and the
  two averages (zero when there is no observation). \<open>round\<close> is rounding to the nearest
  integer, a half going up. The efficiency gain has one decimal, which a number of the
  language holds as the double nearest to it.
\<close>

definition summary_math :: "TokenSummary \<Rightarrow> bool" where
  "summary_math s =
     (let D = totalDiscoveryTokens s; R = totalReadTokens s; n = totalObservations s
      in savings s = D - R
         \<and> savings s + R = D
         \<and> savingsPercent s =
             (if D = 0 then 0 else round ((of_int (savings s) :: rat) / of_int D * 100))
         \<and> efficiencyGain s =
             (if R = 0 then 0
              else fl64 (of_int (round ((of_int D :: rat) / of_int R * 10)) / 10))
         \<and> avgReadTokensPerObs s =
             (if n = 0 then 0 else round ((of_int R :: rat) / of_int n))
         \<and> avgDiscoveryTokensPerObs s =
             (if n = 0 then 0 else round ((of_int D :: rat) / of_int n)))"

text \<open>
  What \<^verbatim>\<open>getSummary\<close> may find in the cache: under a key that starts with \<^verbatim>\<open>summary:\<close>
  only summaries.
\<close>

definition summary_entries_ok :: "cached_value cache \<Rightarrow> bool" where
  "summary_entries_ok c =
     list_all (\<lambda>(k, e). case data e of
                            CSummary s \<Rightarrow> True
                          | CProjection p \<Rightarrow> \<not> js_startsWith k ''summary:'') c"

text \<open>
  The read-token cost as the specification words it, on a stored observation: the
  character count of title, subtitle and narrative plus the content lengths of the four
  JSON columns, divided by four and rounded up.
\<close>

definition spec_charLen :: "platform \<Rightarrow> observation \<Rightarrow> int" where
  "spec_charLen pf ob =
     length_or_0 (c_title ob) + length_or_0 (c_subtitle ob) + length_or_0 (c_narrative ob)
     + getJsonArrayContentLength pf (c_facts ob)
     + getJsonArrayContentLength pf (c_concepts ob)
     + getJsonArrayContentLength pf (c_files_read ob)
     + getJsonArrayContentLength pf (c_files_modified ob)"

definition spec_read_tokens :: "platform \<Rightarrow> observation \<Rightarrow> int" where
  "spec_read_tokens pf ob = \<lceil>(of_int (spec_charLen pf ob) :: rat) / 4\<rceil>"

text \<open>
  The projection as the specification words it: two cumulative streams over the
  sequence of observations, stepped together, and the figures derived from their ends,
  in exact arithmetic (a figure with one decimal being held as the double nearest to
  it). The streams take the discovery tokens and the read tokens of an observation as
  given.
\<close>

record streams =
  D_w :: int
  ctx_w :: int
  C_w :: int
  D_e :: int
  ctx_e :: int
  C_e :: int

definition spec_step :: "('a \<Rightarrow> int) \<Rightarrow> ('a \<Rightarrow> int) \<Rightarrow> streams \<Rightarrow> 'a \<Rightarrow> streams" where
  "spec_step discovery_of read_of st obs =
     (let d = discovery_of obs;
          cw = ctx_w st + 2 * d;
          ce = ctx_e st + read_of obs
      in \<lparr>D_w = D_w st + d, ctx_w = cw, C_w = C_w st + cw,
          D_e = D_e st + d, ctx_e = ce, C_e = C_e st + ce\<rparr>)"

definition spec_streams :: "('a \<Rightarrow> int) \<Rightarrow> ('a \<Rightarrow> int) \<Rightarrow> 'a list \<Rightarrow> streams" where
  "spec_streams discovery_of read_of obs_seq =
     foldl (spec_step discovery_of read_of)
       \<lparr>D_w = 0, ctx_w = 0, C_w = 0, D_e = 0, ctx_e = 0, C_e = 0\<rparr> obs_seq"

definition spec_projection ::
  "('a \<Rightarrow> int) \<Rightarrow> ('a \<Rightarrow> int) \<Rightarrow> 'a list \<Rightarrow> EndlessModeProjection" where
  "spec_projection discovery_of read_of obs_seq =
     (let st = spec_streams discovery_of read_of obs_seq;
          total_w = D_w st + C_w st;
          total_e = D_e st + C_e st;
          saved = total_w - total_e
      in \<lparr>withoutEndlessMode =
            \<lparr>totalTokens = total_w, discoveryTokens = D_w st, continuationTokens = C_w st\<rparr>,
          withEndlessMode =
            \<lparr>totalTokens = total_e, discoveryTokens = D_e st, continuationTokens = C_e st\<rparr>,
          tokensSaved = saved,
          percentSaved =
            (if total_w = 0 then 0
             else fl64 (of_int (round ((of_int saved :: rat) / of_int total_w * 1000)) / 10)),
          efficiencyGain_p =
            (if total_e = 0 then 0
             else fl64 (of_int (round ((of_int total_w :: rat) / of_int total_e * 10)) / 10))\<rparr>)"

text \<open>The discovery tokens of a stored observation, none counting as zero.\<close>

definition spec_discovery_tokens :: "observation \<Rightarrow> int" where
  "spec_discovery_tokens ob = or_0 (c_discovery_tokens ob)"

text \<open>
  \<open>recent\<close> are the \<open>n\<close> most recent of the \<open>matching\<close> rows, newest first: as many as
  there are, up to \<open>n\<close>; in the order of decreasing creation time; taken from the matching
  rows; and no matching row left out is newer than one taken.
\<close>

definition most_recent :: "nat \<Rightarrow> observation list \<Rightarrow> observation list \<Rightarrow> bool" where
  "most_recent n matching recent =
     (length recent = min n (length matching)
      \<and> sorted_wrt (\<lambda>a b. c_created_at_epoch b \<le> c_created_at_epoch a) recent
      \<and> mset recent \<subseteq># mset matching
      \<and> (\<forall>r \<in># mset matching - mset recent. \<forall>c \<in> set recent.
            c_created_at_epoch r \<le> c_created_at_epoch c))"

text \<open>
  One field of a reply's usage record, a missing field or record counting as zero; the
  insert a parsed observation gives rise to; the observations parsed from a reply (an
  empty reply is not parsed).
\<close>

definition usage_count :: "(Usage \<Rightarrow> int option) \<Rightarrow> AssistantMessage \<Rightarrow> int" where
  "usage_count field msg = (case usage msg of None \<Rightarrow> 0 | Some us \<Rightarrow> or_0 (field us))"

definition insert_of :: "ActiveSession \<Rightarrow> int \<Rightarrow> ParsedObservation \<Rightarrow> observation_insert" where
  "insert_of session delta obs =
     \<lparr>ins_session = claudeSessionId session, ins_project = session_project session,
      ins_payload = obs, ins_promptNumber = lastPromptNumber session,
      ins_discoveryTokens = delta\<rparr>"

definition parsed_from :: "parser \<Rightarrow> AssistantMessage \<Rightarrow> ActiveSession \<Rightarrow> ParsedObservation list" where
  "parsed_from ps msg session =
     (if textContent msg = [] then []
      else parseObservations ps (textContent msg) (claudeSessionId session))"

text \<open>
  The prompt numbers the observation messages carry, in order; and the number a value is
  compared as (\<^verbatim>\<open>null\<close> compares as zero in the language).
\<close>

definition carried_prompt_numbers :: "PendingMessage list \<Rightarrow> nullable_number list" where
  "carried_prompt_numbers messages =
     concat (map (\<lambda>m. case (msg_type m, prompt_number m) of
                         (observation_message, Some v) \<Rightarrow> [v]
                       | _ \<Rightarrow> []) messages)"

fun ToNumber :: "nullable_number \<Rightarrow> int" where
  "ToNumber Null = 0"
| "ToNumber (Number n) = n"

section \<open>Worked examples\<close>

text \<open>
  A platform for the worked examples. \<^verbatim>\<open>JSON.parse\<close> is tabulated on the texts the
  examples hold (its results there are those of the standard), the rendering of numbers
  on the counts the examples pass; no example passes a date.
\<close>

definition examples_platform :: platform where
  \<open>examples_platform =
     \<lparr>JSON_parse = map_of
        [(''[]'', JArr []),
         (''["ab"]'', JArr [JStr ''ab'']),
         (''["abcd"]'', JArr [JStr ''abcd''])],
      Number_toString = (\<lambda>n. if n = 50 then ''50'' else if n = 2 then ''2'' else []),
      Date_parse = (\<lambda>s. None)\<rparr>\<close>

definition scenario_1_store :: SessionStore where
  "scenario_1_store =
     \<lparr>observations_table =
        [\<lparr>c_id = 1, c_type = Some ''discovery'', c_title = Some ''ok'', c_subtitle = Some [],
          c_narrative = Some [], c_facts = Some ''[]'', c_concepts = Some ''[]'',
          c_files_read = Some ''[]'', c_files_modified = Some ''[]'',
          c_discovery_tokens = Some 40, c_created_at_epoch = 1000, c_project = Some ''p''\<rparr>],
      db_open = True\<rparr>"

definition concepts_store :: SessionStore where
  \<open>concepts_store =
     \<lparr>observations_table =
        [\<lparr>c_id = 1, c_type = Some ''discovery'', c_title = Some ''ok'', c_subtitle = Some [],
          c_narrative = Some [], c_facts = Some ''[]'', c_concepts = Some ''["abcd"]'',
          c_files_read = Some ''[]'', c_files_modified = Some ''[]'',
          c_discovery_tokens = Some 40, c_created_at_epoch = 1000, c_project = Some ''p''\<rparr>],
      db_open = True\<rparr>\<close>

text \<open>One observation of 68 characters (17 read tokens) that cost 40 tokens to discover.\<close>

definition percent_store :: SessionStore where
  "percent_store =
     \<lparr>observations_table =
        [\<lparr>c_id = 1, c_type = Some ''discovery'', c_title = Some (replicate 68 CHR ''a''),
          c_subtitle = Some [], c_narrative = Some [], c_facts = Some ''[]'',
          c_concepts = Some ''[]'', c_files_read = Some ''[]'', c_files_modified = Some ''[]'',
          c_discovery_tokens = Some 40, c_created_at_epoch = 1000, c_project = Some ''p''\<rparr>],
      db_open = True\<rparr>"

text \<open>One observation of 764 characters (191 read tokens) that cost 400 tokens.\<close>

definition long_store :: SessionStore where
  "long_store =
     \<lparr>observations_table =
        [\<lparr>c_id = 1, c_type = Some ''discovery'', c_title = Some (replicate 764 CHR ''a''),
          c_subtitle = Some [], c_narrative = Some [], c_facts = Some ''[]'',
          c_concepts = Some ''[]'', c_files_read = Some ''[]'', c_files_modified = Some ''[]'',
          c_discovery_tokens = Some 400, c_created_at_epoch = 1000, c_project = Some ''p''\<rparr>],
      db_open = True\<rparr>"

text \<open>The store of scenario 1 after a second observation has been saved.\<close>

definition scenario_1_store_later :: SessionStore where
  "scenario_1_store_later =
     \<lparr>observations_table =
        observations_table scenario_1_store
        @ [\<lparr>c_id = 2, c_type = Some ''bugfix'', c_title = Some ''done'', c_subtitle = Some [],
            c_narrative = Some [], c_facts = Some ''[]'', c_concepts = Some ''[]'',
            c_files_read = Some ''[]'', c_files_modified = Some ''[]'',
            c_discovery_tokens = Some 60, c_created_at_epoch = 4000, c_project = Some ''p''\<rparr>],
      db_open = True\<rparr>"

definition three_store :: SessionStore where
  "three_store =
     \<lparr>observations_table =
        [\<lparr>c_id = 1, c_type = Some ''discovery'', c_title = Some ''aaaa'', c_subtitle = None,
          c_narrative = None, c_facts = Some ''[]'', c_concepts = Some ''[]'',
          c_files_read = Some ''[]'', c_files_modified = Some ''[]'',
          c_discovery_tokens = Some 100, c_created_at_epoch = 1000, c_project = Some ''p''\<rparr>,
         \<lparr>c_id = 2, c_type = Some ''bugfix'', c_title = Some ''bbbbbbbb'', c_subtitle = None,
          c_narrative = None, c_facts = Some ''[]'', c_concepts = Some ''[]'',
          c_files_read = Some ''[]'', c_files_modified = Some ''[]'',
          c_discovery_tokens = Some 50, c_created_at_epoch = 3000, c_project = Some ''p''\<rparr>,
         \<lparr>c_id = 3, c_type = Some ''discovery'', c_title = Some ''cccc'', c_subtitle = None,
          c_narrative = None, c_facts = Some ''[]'', c_concepts = Some ''[]'',
          c_files_read = Some ''[]'', c_files_modified = Some ''[]'',
          c_discovery_tokens = Some 10, c_created_at_epoch = 2000, c_project = Some ''q''\<rparr>],
      db_open = True\<rparr>"

definition five_calls :: "call_env list" where
  "five_calls =
     map (\<lambda>t. \<lparr>clock = t, db = scenario_1_store, sse_faulty = False\<rparr>)
       [1700000000000, 1700000000050, 1700000000100, 1700000000200, 1700000000300]"

definition ready_worker :: WorkerService where
  "ready_worker =
     \<lparr>tokenMetricsService = Some \<lparr>cache = [], lastBroadcastTime = 0\<rparr>,
      lastTokenBroadcast = 0, sseBroadcaster = \<lparr>sent = []\<rparr>, logged = []\<rparr>"

definition closed_store :: SessionStore where
  "closed_store = \<lparr>observations_table = [], db_open = False\<rparr>"


text \<open>A tracker holding one processing record per given duration, a second apart.\<close>

definition sample_tracker :: "int list \<Rightarrow> PerformanceTracker" where
  "sample_tracker ds =
     \<lparr>queueHistory = [],
      processingTimes =
        map (\<lambda>(i, d). \<lparr>timestamp_p = 1700000000000 + 1000 * int i, duration = d,
                         toolName = ''discovery'', discoveryTokens_p = 40, observationCount = 1\<rparr>)
          (enumerate 0 ds),
      lastSampleTime = 0\<rparr>"

definition fresh_tracker :: PerformanceTracker where
  "fresh_tracker = \<lparr>queueHistory = [], processingTimes = [], lastSampleTime = 0\<rparr>"

definition two_observations :: parser where
  "two_observations =
     \<lparr>parseObservations = (\<lambda>text sid.
        [\<lparr>parsed_type = ''discovery'', parsed_title = Some ''first'', parsed_subtitle = None,
          parsed_narrative = None, parsed_facts = [], parsed_concepts = [], parsed_files = []\<rparr>,
         \<lparr>parsed_type = ''bugfix'', parsed_title = Some ''second'', parsed_subtitle = None,
          parsed_narrative = None, parsed_facts = [], parsed_concepts = [], parsed_files = []\<rparr>]),
      parseSummary = (\<lambda>text sid. None)\<rparr>"

definition session_7 :: ActiveSession where
  "session_7 =
     \<lparr>sessionDbId = 7, claudeSessionId = ''claude-7'', sdkSessionId = None,
      session_project = ''p'', userPrompt = ''fix the bug'', lastPromptNumber = Number 5,
      cumulativeInputTokens = 100, cumulativeOutputTokens = 50, pendingProcessingIds = [41]\<rparr>"

definition empty_world :: agent_world where
  "empty_world =
     \<lparr>inserted_observations = [], inserted_summaries = [], effects = [], store_writable = True\<rparr>"

definition reply_18 :: AssistantMessage where
  "reply_18 =
     \<lparr>textContent = ''<observation>...</observation>'',
      usage = Some \<lparr>input_tokens = Some 10, output_tokens = Some 5,
                    cache_creation_input_tokens = Some 3,
                    cache_read_input_tokens = Some 1000\<rparr>\<rparr>"

definition observation_with :: "nullable_number option \<Rightarrow> PendingMessage" where
  "observation_with n =
     \<lparr>msg_type = observation_message, tool_name = Some ''Read'', tool_input = ''{}'',
      tool_response = ''{}'', prompt_number = n, cwd = None,
      last_user_message = None, last_assistant_message = None\<rparr>"

section \<open>Cache invalidation\<close>

lemma invalidate_loop_filter:
  "invalidate_loop project keys c =
     filter (\<lambda>(k, e). \<not> (k \<in> set keys \<and> invalidated project k)) c"
proof (induction keys arbitrary: c)
  case Nil
  show ?case by simp
next
  case (Cons key keys)
  have "filter (\<lambda>(k, e). \<not> (k \<in> set keys \<and> invalidated project k))
          (if invalidated project key then Map_delete key c else c) =
        filter (\<lambda>(k, e). \<not> (k \<in> set (key # keys) \<and> invalidated project k)) c"
    by (auto simp: Map_delete_def intro: filter_cong)
  with Cons.IH show ?case by simp
qed

lemma invalidateCache_filter:
  "invalidateCache project c = filter (\<lambda>(k, e). \<not> invalidated project k) c"
proof -
  have "\<And>k e. (k, e) \<in> set c \<Longrightarrow> k \<in> set (Map_keys c)"
    by (force simp: Map_keys_def)
  then show ?thesis
    unfolding invalidateCache_def invalidate_loop_filter
    by (auto intro!: filter_cong)
qed

text \<open>
  C5, as the specification states it, fails on the code. Called without a project, the
  method deletes a key that is not of the form \<^verbatim>\<open>summary:*\<close>; called with the project
  \<^verbatim>\<open>foo\<close>, it deletes a key in which \<^verbatim>\<open>foo\<close> does not occur.
\<close>

theorem C5_invalidateCache_counterexample:
  "invalidateCache None [(''by-type:all:all'', \<lparr>data = (0::nat), timestamp = 0\<rparr>)] = []
   \<and> \<not> js_startsWith ''by-type:all:all'' ''summary:''
   \<and> invalidateCache (Some ''foo'') [(''summary:bar:all'', \<lparr>data = (0::nat), timestamp = 0\<rparr>)] = []
   \<and> \<not> js_includes ''summary:bar:all'' ''foo''"
  by (simp add: invalidateCache_def Map_keys_def Map_delete_def invalidated_def)

text \<open>
  C5 (amended): without a project argument (or with the empty string) \<^verbatim>\<open>invalidateCache\<close>
  deletes every entry of the cache; with a non-empty project it deletes exactly the
  entries whose key contains the project as a substring or starts with \<^verbatim>\<open>summary:\<close>, and
  keeps the others in their order.
\<close>

theorem C5_invalidateCache_amended:
  "invalidateCache None c = []
   \<and> invalidateCache (Some []) c = []
   \<and> (p \<noteq> [] \<longrightarrow>
        invalidateCache (Some p) c =
          filter (\<lambda>(k, e). \<not> (js_includes k p \<or> js_startsWith k ''summary:'')) c)"
  by (simp add: invalidateCache_filter invalidated_def split_def)

theorem C5_invalidateCache_amended_witness:
  "invalidateCache None [(''projection:foo:50'', \<lparr>data = (1::nat), timestamp = 5\<rparr>)] = []
   \<and> ''foo'' \<noteq> []
   \<and> invalidateCache (Some ''foo'')
        [(''by-type:foo:all'', \<lparr>data = (1::nat), timestamp = 5\<rparr>),
         (''summary:bar:all'', \<lparr>data = 2, timestamp = 6\<rparr>),
         (''by-type:bar:all'', \<lparr>data = 3, timestamp = 7\<rparr>)] =
       [(''by-type:bar:all'', \<lparr>data = 3, timestamp = 7\<rparr>)]"
  using C5_invalidateCache_amended
    [of "[(''projection:foo:50'', \<lparr>data = (1::nat), timestamp = 5\<rparr>)]" "''foo''"]
    C5_invalidateCache_amended
    [of "[(''by-type:foo:all'', \<lparr>data = (1::nat), timestamp = 5\<rparr>),
          (''summary:bar:all'', \<lparr>data = 2, timestamp = 6\<rparr>),
          (''by-type:bar:all'', \<lparr>data = 3, timestamp = 7\<rparr>)]" "''foo''"]
  by simp

section \<open>The summary\<close>

lemma summary_loop_sums:
  "summary_loop pf xs (r, d) =
     (r + sum_list (map (calculateReadTokens pf) xs),
      d + sum_list (map (\<lambda>obs. or_0 (discovery_tokens obs)) xs))"
  by (induction xs arbitrary: r d) simp_all

text \<open>Scenario 1 of the specification, computed.\<close>

lemma scenario_1_summary:
  "getSummary examples_platform 5000 scenario_1_store None None \<lparr>cache = [], lastBroadcastTime = 0\<rparr> =
     Inr (CSummary \<lparr>totalObservations = 1, totalReadTokens = 1, totalDiscoveryTokens = 40,
                    savings = 39, savingsPercent = 98, efficiencyGain = 40,
                    avgReadTokensPerObs = 1, avgDiscoveryTokensPerObs = 40\<rparr>,
          \<lparr>cache = [(''summary:all:all'',
               \<lparr>data = CSummary \<lparr>totalObservations = 1, totalReadTokens = 1, totalDiscoveryTokens = 40,
                    savings = 39, savingsPercent = 98, efficiencyGain = 40,
                    avgReadTokensPerObs = 1, avgDiscoveryTokensPerObs = 40\<rparr>, timestamp = 5000\<rparr>)],
           lastBroadcastTime = 0\<rparr>)"
  by code_simp

text \<open>
  The parts of the summary that involve no rounded quotient are as the specification
  states them, whatever the rows: the savings are the difference of the two totals, and
  a percentage, gain or average whose denominator is zero is zero.
\<close>

lemma summarize_savings:
  "savings (summarize pf xs) =
     totalDiscoveryTokens (summarize pf xs) - totalReadTokens (summarize pf xs)"
  by (simp add: summarize_def split_def Let_def)

lemma summarize_zero_denominators:
  "totalDiscoveryTokens (summarize pf xs) = 0 \<Longrightarrow> savingsPercent (summarize pf xs) = 0"
  "totalReadTokens (summarize pf xs) = 0 \<Longrightarrow> efficiencyGain (summarize pf xs) = 0"
  "totalObservations (summarize pf xs) = 0 \<Longrightarrow>
     avgReadTokensPerObs (summarize pf xs) = 0 \<and> avgDiscoveryTokensPerObs (summarize pf xs) = 0"
  by (simp_all add: summarize_def split_def Let_def)

text \<open>
  Where the double and the exact quotient part: 23 saved of 40 are 57.5 per cent, but
  the double nearest to \<open>23 / 40\<close> lies below it, its product with \<open>100\<close> is rounded to
  the double just below 57.5, and \<^verbatim>\<open>Math.round\<close> of that is 57.
\<close>

lemma savingsPercent_in_doubles:
  "js_div 23 40 < 23 / 40 \<and> js_mul (js_div 23 40) 100 < 115 / 2
   \<and> Math_round (js_mul (js_div 23 40) 100) = 57 \<and> round ((23 :: rat) / 40 * 100) = 58"
  by code_simp

text \<open>
  C4: for every filter, the record \<^verbatim>\<open>getSummary\<close> returns should have
  \<open>savings = totalDiscoveryTokens - totalReadTokens\<close>,
  \<open>savingsPercent = round(savings / totalDiscoveryTokens * 100)\<close>,
  \<open>efficiencyGain = round(totalDiscoveryTokens / totalReadTokens * 10) / 10\<close> and the two
  averages the totals divided by \<open>totalObservations\<close> and rounded, each zero on a zero
  denominator. The code writes these formulas, the percentage as
  \<^verbatim>\<open>Math.round((savings / totalDiscoveryTokens) * 100)\<close>, and evaluates them in doubles,
  dividing first. On a store holding one observation of 68 characters that cost 40
  tokens, the summary has 17 read tokens, savings of 23, and a \<open>savingsPercent\<close> of 57,
  where \<open>round(23 / 40 * 100) = round(57.5) = 58\<close>. The other fields of that record are
  as stated.
\<close>

theorem C4_getSummary_savingsPercent:
  "map_sum id fst (getSummary examples_platform 5000 percent_store None None
                     \<lparr>cache = [], lastBroadcastTime = 0\<rparr>) =
     Inr (CSummary \<lparr>totalObservations = 1, totalReadTokens = 17, totalDiscoveryTokens = 40,
                    savings = 23, savingsPercent = 57, efficiencyGain = fl64 (24 / 10),
                    avgReadTokensPerObs = 17, avgDiscoveryTokensPerObs = 40\<rparr>)
   \<and> round ((23 :: rat) / 40 * 100) = 58
   \<and> \<not> summary_math \<lparr>totalObservations = 1, totalReadTokens = 17, totalDiscoveryTokens = 40,
                    savings = 23, savingsPercent = 57, efficiencyGain = fl64 (24 / 10),
                    avgReadTokensPerObs = 17, avgDiscoveryTokensPerObs = 40\<rparr>
   \<and> summary_math \<lparr>totalObservations = 1, totalReadTokens = 17, totalDiscoveryTokens = 40,
                    savings = 23, savingsPercent = 58, efficiencyGain = fl64 (24 / 10),
                    avgReadTokensPerObs = 17, avgDiscoveryTokensPerObs = 40\<rparr>"
  by code_simp

subsection \<open>What the cache holds\<close>





lemma summary_entries_ok_setCache:
  assumes "summary_entries_ok c"
  shows "summary_entries_ok (setCache now key (CSummary s) c)"
proof -
  have "\<And>k e. (k, e) \<in> set (setCache now key (CSummary s) c) \<Longrightarrow>
          (k, e) \<in> set c \<or> data e = CSummary s"
    by (auto simp: setCache_def Map_set_def split: if_splits)
  with assms show ?thesis
    unfolding summary_entries_ok_def list_all_iff by fastforce
qed

text \<open>
  The cache holds summaries under its \<^verbatim>\<open>summary:\<close> keys when it is empty, and the
  operations of the service keep it so.
\<close>

lemma summary_entries_ok_empty: "summary_entries_ok []"
  by (simp add: summary_entries_ok_def)

lemma summary_entries_ok_getSummary:
  assumes "summary_entries_ok (cache svc)"
    and "getSummary pf now store project since svc = Inr (v, svc')"
  shows "summary_entries_ok (cache svc')"
proof (cases "getCached now (''summary:'' @ or_all project @ '':'' @ or_all since)
                CACHE_TTL_MS (cache svc)")
  case (Some d)
  with assms show ?thesis
    by (simp add: getSummary_def)
next
  case None
  have "summary_entries_ok
      (setCache now (''summary:'' @ or_all project @ '':'' @ or_all since)
         (CSummary s) (cache svc))" for s
    using assms(1) by (rule summary_entries_ok_setCache)
  with None assms(2) show ?thesis
    by (auto simp: getSummary_def run_query_def Let_def simp del: append.simps
             split: if_splits)
qed

lemma summary_entries_ok_invalidateCache:
  "summary_entries_ok c \<Longrightarrow> summary_entries_ok (invalidateCache project c)"
  by (simp add: summary_entries_ok_def invalidateCache_filter list_all_iff)

lemma summary_entries_ok_projection:
  assumes "summary_entries_ok (cache svc)"
    and "getEndlessModeProjection pf now store project n svc = Inr (v, svc')"
  shows "summary_entries_ok (cache svc')"
proof (cases "getCached now (''projection:'' @ or_all project @ '':''
                               @ Number_toString pf (of_int n))
                PROJECTION_CACHE_TTL_MS (cache svc)")
  case (Some d)
  with assms show ?thesis
    by (simp add: getEndlessModeProjection_def)
next
  case None
  let ?key = "''projection:'' @ or_all project @ '':'' @ Number_toString pf (of_int n)"
  have key: "\<not> js_startsWith ?key ''summary:''"
    by simp
  have mem: "(k, e) \<in> set (cache svc) \<or> (k = ?key \<and> data e = d)"
    if "(k, e) \<in> set (setCache now ?key d (cache svc))" for k e d
    using that by (auto simp: setCache_def Map_set_def simp del: append.simps split: if_splits)
  have "summary_entries_ok (setCache now ?key (CProjection p) (cache svc))" for p
    unfolding summary_entries_ok_def list_all_iff
  proof (intro ballI)
    fix x assume x: "x \<in> set (setCache now ?key (CProjection p) (cache svc))"
    obtain k e where ke: "x = (k, e)" by (cases x)
    from mem [of k e "CProjection p"] x ke
    consider "(k, e) \<in> set (cache svc)" | "k = ?key" "data e = CProjection p"
      by blast
    then show "case x of (k, e) \<Rightarrow>
                 (case data e of CSummary s \<Rightarrow> True
                  | CProjection p \<Rightarrow> \<not> js_startsWith k ''summary:'')"
    proof cases
      case 1
      with assms(1) ke show ?thesis
        unfolding summary_entries_ok_def list_all_iff by blast
    next
      case 2
      with key ke show ?thesis
        by (simp del: append.simps js_startsWith.simps)
    qed
  qed
  with None assms(2) show ?thesis
    by (auto simp: getEndlessModeProjection_def run_query_def Let_def
             simp del: append.simps split: if_splits)
qed

section \<open>The read-token heuristic\<close>

lemma join_with_empty_concat: "join_with [] ss = concat ss"
  by (induction "[] :: string" ss rule: join_with.induct) simp_all

lemma Array_join_strings:
  "Array_join ns [] (map JStr ss) = concat ss"
  by (simp add: Array_join_def join_with_empty_concat comp_def)

lemma getJsonArrayContentLength_array_of_strings:
  assumes "s \<noteq> []" and "JSON_parse pf s = Some (JArr (map JStr ss))"
  shows "getJsonArrayContentLength pf (Some s) = int (length (concat ss))"
    and "getJsonArrayContentLength pf (Some s) = (\<Sum>e\<leftarrow>ss. int (length e))"
proof -
  show a: "getJsonArrayContentLength pf (Some s) = int (length (concat ss))"
    using assms by (simp add: getJsonArrayContentLength_def Array_join_strings)
  have "int (length (concat ss)) = (\<Sum>e\<leftarrow>ss. int (length e))"
    by (induction ss) simp_all
  with a show "getJsonArrayContentLength pf (Some s) = (\<Sum>e\<leftarrow>ss. int (length e))"
    by simp
qed

lemma getJsonArrayContentLength_parse_failure:
  "JSON_parse pf s = None \<Longrightarrow> getJsonArrayContentLength pf (Some s) = int (length s)"
  by (simp add: getJsonArrayContentLength_def)

lemma calculateReadTokens_ceiling:
  "calculateReadTokens pf obs =
     \<lceil>(of_int (length_or_0 (title obs) + length_or_0 (subtitle obs) + length_or_0 (narrative obs)
        + getJsonArrayContentLength pf (facts obs)
        + getJsonArrayContentLength pf (concepts obs)
        + getJsonArrayContentLength pf (files_read obs)
        + getJsonArrayContentLength pf (files_modified obs)) :: rat) / 4\<rceil>"
  by (simp add: calculateReadTokens_def Math_ceil_def CHARS_PER_TOKEN_def Let_def)

lemma calculateReadTokens_selected:
  "calculateReadTokens pf (select_summary ob) =
     \<lceil>(of_int (length_or_0 (c_title ob) + length_or_0 (c_subtitle ob)
        + length_or_0 (c_narrative ob) + getJsonArrayContentLength pf (c_facts ob)) :: rat) / 4\<rceil>"
  by (simp add: calculateReadTokens_ceiling select_summary_def getJsonArrayContentLength_def)

lemma getSummary_fresh_totalReadTokens:
  assumes "db_open store"
    and "getCached now (''summary:'' @ or_all project @ '':'' @ or_all since)
           CACHE_TTL_MS (cache svc) = None"
  shows "\<exists>s svc'. getSummary pf now store project since svc = Inr (CSummary s, svc')
           \<and> totalReadTokens s =
               (\<Sum>ob\<leftarrow>where_clause (summary_conditions project (parseSince pf now since))
                        (observations_table store).
                  calculateReadTokens pf (select_summary ob))"
  using assms
  by (simp add: getSummary_def run_query_def Let_def summarize_def summary_loop_sums comp_def)

text \<open>
  C1: every observation row that \<^verbatim>\<open>getSummary\<close> aggregates should cost \<open>ceil(S / 4)\<close> read
  tokens, \<open>S\<close> counting title, subtitle, narrative and the contents of facts, concepts,
  files_read and files_modified, and \<open>totalReadTokens\<close> should be the sum of these costs.
  \<^verbatim>\<open>calculateReadTokens\<close> computes that on the row object it is given
  (\<open>calculateReadTokens_ceiling\<close>), and the total is the sum over the rows
  (\<open>getSummary_fresh_totalReadTokens\<close>); but the query of \<^verbatim>\<open>getSummary\<close> does not select
  the columns concepts, files_read and files_modified, so they count for nothing
  (\<open>calculateReadTokens_selected\<close>). On a store holding one observation with title
  \<^verbatim>\<open>ok\<close> and concepts \<^verbatim>\<open>["abcd"]\<close> the summary reports 1 read token where the stated
  cost is \<open>ceil(6 / 4) = 2\<close>.
\<close>

theorem C1_getSummary_omits_columns:
  "map_sum id fst (getSummary examples_platform 5000 concepts_store None None
                     \<lparr>cache = [], lastBroadcastTime = 0\<rparr>) =
     Inr (CSummary \<lparr>totalObservations = 1, totalReadTokens = 1, totalDiscoveryTokens = 40,
                    savings = 39, savingsPercent = 98, efficiencyGain = 40,
                    avgReadTokensPerObs = 1, avgDiscoveryTokensPerObs = 40\<rparr>)
   \<and> map (spec_read_tokens examples_platform) (observations_table concepts_store) = [2]"
  by code_simp

section \<open>The live push\<close>

lemma broadcastTokenUpdate_cases:
  obtains (throttled) "clock env - lastTokenBroadcast w < 1000"
      "broadcastTokenUpdate pf env w = Inr w"
  | (uninitialized) "1000 \<le> clock env - lastTokenBroadcast w" "tokenMetricsService w = None"
      "broadcastTokenUpdate pf env w = Inr (w\<lparr>lastTokenBroadcast := clock env\<rparr>)"
  | (summary_failed) svc e where "1000 \<le> clock env - lastTokenBroadcast w"
      "tokenMetricsService w = Some svc"
      "getSummary pf (clock env) (db env) None None svc = Inl e"
      "broadcastTokenUpdate pf env w =
         Inr (logger_warn ''Failed to broadcast token update'' e
                (w\<lparr>lastTokenBroadcast := clock env\<rparr>))"
  | (broadcast_failed) svc v svc' where "1000 \<le> clock env - lastTokenBroadcast w"
      "tokenMetricsService w = Some svc"
      "getSummary pf (clock env) (db env) None None svc = Inr (v, svc')"
      "sse_faulty env"
      "broadcastTokenUpdate pf env w =
         Inr (logger_warn ''Failed to broadcast token update'' BroadcastError
                (w\<lparr>lastTokenBroadcast := clock env, tokenMetricsService := Some svc'\<rparr>))"
  | (emitted) svc v svc' where "1000 \<le> clock env - lastTokenBroadcast w"
      "tokenMetricsService w = Some svc"
      "getSummary pf (clock env) (db env) None None svc = Inr (v, svc')"
      "\<not> sse_faulty env"
      "broadcastTokenUpdate pf env w =
         Inr (w\<lparr>lastTokenBroadcast := clock env, tokenMetricsService := Some svc',
                 sseBroadcaster := (sseBroadcaster w)\<lparr>sent := sent (sseBroadcaster w) @ [TokenUpdate v]\<rparr>\<rparr>)"
proof (cases "clock env - lastTokenBroadcast w < 1000")
  case True
  then show ?thesis
    by (intro throttled) (simp_all add: broadcastTokenUpdate_def)
next
  case pass: False
  show ?thesis
  proof (cases "tokenMetricsService w")
    case None
    with pass show ?thesis
      by (intro uninitialized) (simp_all add: broadcastTokenUpdate_def)
  next
    case (Some svc)
    show ?thesis
    proof (cases "getSummary pf (clock env) (db env) None None svc")
      case (Inl e)
      with pass Some show ?thesis
        by (intro summary_failed [of svc e])
           (simp_all add: broadcastTokenUpdate_def token_update_body_def try_catch_def)
    next
      case (Inr r)
      obtain v svc' where r: "r = (v, svc')" by (cases r)
      show ?thesis
      proof (cases "sse_faulty env")
        case True
        with pass Some Inr r show ?thesis
          by (intro broadcast_failed [of svc v svc'])
             (simp_all add: broadcastTokenUpdate_def token_update_body_def try_catch_def
                broadcast_def)
      next
        case False
        with pass Some Inr r show ?thesis
          by (intro emitted [of svc v svc'])
             (simp_all add: broadcastTokenUpdate_def token_update_body_def try_catch_def
                broadcast_def)
      qed
    qed
  qed
qed

lemma step_throttle:
  assumes "w' = state_after (broadcastTokenUpdate pf env w)"
  shows "lastTokenBroadcast w \<le> lastTokenBroadcast w'"
    and "length (emitted_by w w') \<le> 1"
    and "emitted_by w w' \<noteq> [] \<Longrightarrow>
           lastTokenBroadcast w + 1000 \<le> clock env \<and> lastTokenBroadcast w' = clock env"
  using assms
  by (cases pf env w rule: broadcastTokenUpdate_cases;
      simp add: state_after_def emitted_by_def logger_warn_def)+

lemma worker_run_after_last:
  "(t, ev) \<in> set (fst (worker_run pf es w)) \<Longrightarrow> lastTokenBroadcast w + 1000 \<le> t"
proof (induction es arbitrary: w)
  case Nil
  then show ?case by simp
next
  case (Cons e es)
  show ?case
  proof (cases e)
    case InitializeBackground
    with Cons show ?thesis by fastforce
  next
    case (BroadcastTokenUpdate env)
    define w' where "w' = state_after (broadcastTokenUpdate pf env w)"
    note st = step_throttle [OF w'_def]
    have run: "fst (worker_run pf (e # es) w) =
                 map (\<lambda>ev. (clock env, ev)) (emitted_by w w') @ fst (worker_run pf es w')"
      by (simp add: BroadcastTokenUpdate w'_def Let_def split_def)
    from Cons.prems
    have "(t, ev) \<in> set (map (\<lambda>ev. (clock env, ev)) (emitted_by w w'))
          \<or> (t, ev) \<in> set (fst (worker_run pf es w'))"
      unfolding run by simp
    then consider (head) "t = clock env" "ev \<in> set (emitted_by w w')"
      | (tail) "(t, ev) \<in> set (fst (worker_run pf es w'))"
      by auto
    then show ?thesis
    proof cases
      case head
      then have "emitted_by w w' \<noteq> []" by auto
      with st(3) head(1) show ?thesis by simp
    next
      case tail
      from Cons.IH [OF tail] st(1) show ?thesis by simp
    qed
  qed
qed

lemma worker_run_spaced:
  "sorted_wrt (\<lambda>a b. fst a + 1000 \<le> fst b) (fst (worker_run pf es w))"
proof (induction es arbitrary: w)
  case Nil
  show ?case by simp
next
  case (Cons e es)
  show ?case
  proof (cases e)
    case InitializeBackground
    with Cons show ?thesis by simp
  next
    case (BroadcastTokenUpdate env)
    define w' where "w' = state_after (broadcastTokenUpdate pf env w)"
    note st = step_throttle [OF w'_def]
    have run: "fst (worker_run pf (e # es) w) =
                 map (\<lambda>ev. (clock env, ev)) (emitted_by w w') @ fst (worker_run pf es w')"
      by (simp add: BroadcastTokenUpdate w'_def Let_def split_def)
    show ?thesis
    proof (cases "emitted_by w w'")
      case Nil
      with run Cons.IH show ?thesis by simp
    next
      case (Cons x xs)
      with st(2) have xs: "xs = []" by simp
      from Cons st(3) have "lastTokenBroadcast w' = clock env" by simp
      then have "\<forall>b \<in> set (fst (worker_run pf es w')). clock env + 1000 \<le> fst b"
        using worker_run_after_last [of _ _ pf es w'] by fastforce
      with run Cons xs Cons.IH [of w'] show ?thesis by simp
    qed
  qed
qed

lemma worker_run_times:
  "(t, ev) \<in> set (fst (worker_run pf (map BroadcastTokenUpdate calls) w)) \<Longrightarrow>
     t \<in> clock ` set calls"
  by (induction calls arbitrary: w) (auto simp: Let_def split_def)

lemma worker_run_window:
  assumes "\<forall>a \<in> set calls. \<forall>b \<in> set calls. clock b - clock a < 1000"
  shows "length (fst (worker_run pf (map BroadcastTokenUpdate calls) w)) \<le> 1"
proof (rule ccontr)
  assume "\<not> ?thesis"
  then obtain x y rest where tr: "fst (worker_run pf (map BroadcastTokenUpdate calls) w) = x # y # rest"
    by (cases "fst (worker_run pf (map BroadcastTokenUpdate calls) w)" rule: list.exhaust;
        simp; metis list.exhaust)
  with worker_run_spaced [of pf "map BroadcastTokenUpdate calls" w]
  have gap: "fst x + 1000 \<le> fst y" by simp
  from tr have "(fst x, snd x) \<in> set (fst (worker_run pf (map BroadcastTokenUpdate calls) w))"
    and "(fst y, snd y) \<in> set (fst (worker_run pf (map BroadcastTokenUpdate calls) w))"
    by simp_all
  then obtain a b where "a \<in> set calls" "b \<in> set calls" "fst x = clock a" "fst y = clock b"
    by (blast dest: worker_run_times)
  with assms gap show False by fastforce
qed

lemma getSummary_no_filter:
  "getSummary pf now store None None svc =
     (case getCached now ''summary:all:all'' CACHE_TTL_MS (cache svc) of
        Some cached \<Rightarrow> Inr (cached, svc)
      | None \<Rightarrow>
          if db_open store
          then Inr (CSummary (summarize pf (map select_summary (observations_table store))),
                    svc\<lparr>cache := setCache now ''summary:all:all''
                       (CSummary (summarize pf (map select_summary (observations_table store))))
                       (cache svc)\<rparr>)
          else Inl DatabaseError)"
  by (simp add: getSummary_def or_all_def parseSince_def summary_conditions_def
        where_clause_def run_query_def Let_def split: option.splits)

lemma getSummary_open_returns:
  "db_open store \<Longrightarrow> \<exists>v svc'. getSummary pf now store project since svc = Inr (v, svc')"
  by (simp add: getSummary_def run_query_def Let_def split: option.splits)

text \<open>
  C7: whatever the sequence of calls to \<^verbatim>\<open>broadcastTokenUpdate\<close> and whatever the clock
  reads at each, any two \<^verbatim>\<open>token_update\<close> frames the worker sends are at least 1000 ms
  apart, so a call less than 1000 ms after a frame sends none. Calls whose clock readings
  lie within 300 ms of one another (five of them, say) send at most one frame, and
  exactly one when the first of them comes 1000 ms or more after the last broadcast
  time, the metrics service is there, the store is open and the broadcaster works.
\<close>

theorem C7_token_update_throttle:
  "sorted_wrt (\<lambda>a b. fst a + 1000 \<le> fst b) (fst (worker_run pf events w))
   \<and> ((\<forall>a \<in> set calls. \<forall>b \<in> set calls. clock b - clock a \<le> 300) \<longrightarrow>
        length (fst (worker_run pf (map BroadcastTokenUpdate calls) w)) \<le> 1)
   \<and> ((\<forall>a \<in> set (c # calls). \<forall>b \<in> set (c # calls). clock b - clock a \<le> 300)
        \<and> lastTokenBroadcast w + 1000 \<le> clock c \<and> tokenMetricsService w \<noteq> None
        \<and> db_open (db c) \<and> \<not> sse_faulty c \<longrightarrow>
        length (fst (worker_run pf (map BroadcastTokenUpdate (c # calls)) w)) = 1)"
proof (intro conjI impI)
  show "sorted_wrt (\<lambda>a b. fst a + 1000 \<le> fst b) (fst (worker_run pf events w))"
    by (rule worker_run_spaced)
next
  assume "\<forall>a \<in> set calls. \<forall>b \<in> set calls. clock b - clock a \<le> 300"
  then have "\<forall>a \<in> set calls. \<forall>b \<in> set calls. clock b - clock a < 1000"
    by fastforce
  then show "length (fst (worker_run pf (map BroadcastTokenUpdate calls) w)) \<le> 1"
    by (rule worker_run_window)
next
  assume a: "(\<forall>a \<in> set (c # calls). \<forall>b \<in> set (c # calls). clock b - clock a \<le> 300)
        \<and> lastTokenBroadcast w + 1000 \<le> clock c \<and> tokenMetricsService w \<noteq> None
        \<and> db_open (db c) \<and> \<not> sse_faulty c"
  then have "\<forall>a \<in> set (c # calls). \<forall>b \<in> set (c # calls). clock b - clock a < 1000"
    by fastforce
  then have le: "length (fst (worker_run pf (map BroadcastTokenUpdate (c # calls)) w)) \<le> 1"
    by (rule worker_run_window)
  from a obtain svc where svc: "tokenMetricsService w = Some svc" by auto
  from a obtain v svc' where "getSummary pf (clock c) (db c) None None svc = Inr (v, svc')"
    using getSummary_open_returns by blast
  with a svc have "emitted_by w (state_after (broadcastTokenUpdate pf c w)) = [TokenUpdate v]"
    by (cases pf c w rule: broadcastTokenUpdate_cases)
       (simp_all add: state_after_def emitted_by_def)
  then have "1 \<le> length (fst (worker_run pf (map BroadcastTokenUpdate (c # calls)) w))"
    by (simp add: Let_def split_def)
  with le show "length (fst (worker_run pf (map BroadcastTokenUpdate (c # calls)) w)) = 1"
    by simp
qed

theorem C7_token_update_throttle_witness:
  "map clock five_calls =
     [1700000000000, 1700000000050, 1700000000100, 1700000000200, 1700000000300]
   \<and> lastTokenBroadcast ready_worker = 0
   \<and> length (fst (worker_run examples_platform (map BroadcastTokenUpdate five_calls) ready_worker)) = 1
   \<and> sorted_wrt (\<lambda>a b. fst a + 1000 \<le> fst b)
        (fst (worker_run examples_platform (map BroadcastTokenUpdate five_calls) ready_worker))"
proof -
  have c: "map clock five_calls =
     [1700000000000, 1700000000050, 1700000000100, 1700000000200, 1700000000300]"
    by (simp add: five_calls_def)
  have w: "\<forall>a \<in> set five_calls. \<forall>b \<in> set five_calls. clock b - clock a \<le> 300"
    by (simp add: five_calls_def)
  have r: "lastTokenBroadcast ready_worker + 1000 \<le> clock (hd five_calls)
           \<and> tokenMetricsService ready_worker \<noteq> None
           \<and> db_open (db (hd five_calls)) \<and> \<not> sse_faulty (hd five_calls)"
    by (simp add: five_calls_def ready_worker_def scenario_1_store_def)
  have f: "five_calls = hd five_calls # tl five_calls"
    by (simp add: five_calls_def)
  from C7_token_update_throttle
    [where pf = examples_platform and events = "map BroadcastTokenUpdate five_calls"
       and w = ready_worker and c = "hd five_calls" and calls = "tl five_calls"] w r f c
  show ?thesis
    by (simp add: ready_worker_def)
qed

text \<open>
  C10: \<^verbatim>\<open>broadcastTokenUpdate\<close> never throws to its caller. Every call completes; when the
  metrics service is not initialised it sends nothing and logs nothing; an error raised
  by the summary or by the broadcast is caught and logged, and nothing is sent. The
  orchestrator's session is no argument of the call: the worker's own fields are all it
  changes.
\<close>

theorem C10_broadcastTokenUpdate_never_throws:
  "\<exists>w'. broadcastTokenUpdate pf env w = Inr w'
     \<and> (tokenMetricsService w = None \<longrightarrow>
          sseBroadcaster w' = sseBroadcaster w \<and> logged w' = logged w)
     \<and> (\<forall>svc e. 1000 \<le> clock env - lastTokenBroadcast w \<and> tokenMetricsService w = Some svc
            \<and> getSummary pf (clock env) (db env) None None svc = Inl e \<longrightarrow>
          sseBroadcaster w' = sseBroadcaster w
          \<and> logged w' = logged w @ [Warn ''Failed to broadcast token update'' e])
     \<and> (\<forall>svc r. 1000 \<le> clock env - lastTokenBroadcast w \<and> tokenMetricsService w = Some svc
            \<and> getSummary pf (clock env) (db env) None None svc = Inr r \<and> sse_faulty env \<longrightarrow>
          sseBroadcaster w' = sseBroadcaster w
          \<and> logged w' = logged w @ [Warn ''Failed to broadcast token update'' BroadcastError])"
  by (cases pf env w rule: broadcastTokenUpdate_cases) (simp_all add: logger_warn_def)

theorem C10_broadcastTokenUpdate_never_throws_witness:
  "broadcastTokenUpdate examples_platform
      \<lparr>clock = 1700000000000, db = closed_store, sse_faulty = False\<rparr> ready_worker =
     Inr (ready_worker\<lparr>lastTokenBroadcast := 1700000000000,
            logged := [Warn ''Failed to broadcast token update'' DatabaseError]\<rparr>)
   \<and> getSummary examples_platform 1700000000000 closed_store None None
        \<lparr>cache = [], lastBroadcastTime = 0\<rparr> = Inl DatabaseError"
proof -
  have g: "getSummary examples_platform 1700000000000 closed_store None None
        \<lparr>cache = [], lastBroadcastTime = 0\<rparr> = Inl DatabaseError"
    by (simp add: getSummary_no_filter getCached_def Map_get_def closed_store_def)
  from C10_broadcastTokenUpdate_never_throws
    [of examples_platform "\<lparr>clock = 1700000000000, db = closed_store, sse_faulty = False\<rparr>"
        ready_worker]
  obtain w' where w': "broadcastTokenUpdate examples_platform
      \<lparr>clock = 1700000000000, db = closed_store, sse_faulty = False\<rparr> ready_worker = Inr w'"
    by blast
  have "w' = ready_worker\<lparr>lastTokenBroadcast := 1700000000000,
            logged := [Warn ''Failed to broadcast token update'' DatabaseError]\<rparr>"
    using w' g
    by (simp add: broadcastTokenUpdate_def token_update_body_def try_catch_def
          ready_worker_def logger_warn_def)
  with w' g show ?thesis by simp
qed





text \<open>
  The frame when a cached summary exists. A first call, on the store of scenario 1, sends
  a frame and leaves its summary in the cache; a second call five seconds later, after
  another observation has been saved, is answered from the cache and sends the same
  summary once more: one observation and 40 discovery tokens, where the store holds two
  observations and 100 discovery tokens. Nothing in the sources calls
  \<^verbatim>\<open>invalidateCache\<close>.
\<close>

lemma token_update_from_cache:
  "fst (worker_run examples_platform
         [BroadcastTokenUpdate \<lparr>clock = 1700000000000, db = scenario_1_store, sse_faulty = False\<rparr>,
          BroadcastTokenUpdate \<lparr>clock = 1700000005000, db = scenario_1_store_later,
                                 sse_faulty = False\<rparr>]
         ready_worker) =
     [(1700000000000, TokenUpdate (CSummary \<lparr>totalObservations = 1, totalReadTokens = 1,
        totalDiscoveryTokens = 40, savings = 39, savingsPercent = 98, efficiencyGain = 40,
        avgReadTokensPerObs = 1, avgDiscoveryTokensPerObs = 40\<rparr>)),
      (1700000005000, TokenUpdate (CSummary \<lparr>totalObservations = 1, totalReadTokens = 1,
        totalDiscoveryTokens = 40, savings = 39, savingsPercent = 98, efficiencyGain = 40,
        avgReadTokensPerObs = 1, avgDiscoveryTokensPerObs = 40\<rparr>))]
   \<and> getQuickSummary scenario_1_store_later =
       Inr \<lparr>quick_totalDiscoveryTokens = 100, quick_totalReadTokens = 2,
            quick_savings = 98, quick_savingsPercent = 98\<rparr>"
  by code_simp

section \<open>The endless-mode projection\<close>

text \<open>
  The two loops of \<^verbatim>\<open>getEndlessModeProjection\<close> step the two streams of the
  specification, on the rows they are given and with the cost \<^verbatim>\<open>calculateReadTokens\<close>
  finds on such a row.
\<close>

lemma without_loop_as_stream:
  "without_loop xs (ctx_w st, D_w st, C_w st) =
     (ctx_w (foldl (spec_step (\<lambda>obs. or_0 (discovery_tokens obs)) rt) st xs),
      D_w (foldl (spec_step (\<lambda>obs. or_0 (discovery_tokens obs)) rt) st xs),
      C_w (foldl (spec_step (\<lambda>obs. or_0 (discovery_tokens obs)) rt) st xs))"
proof (induction xs arbitrary: st)
  case Nil
  show ?case by simp
next
  case (Cons x xs)
  let ?step = "spec_step (\<lambda>obs. or_0 (discovery_tokens obs)) rt"
  have "without_loop (x # xs) (ctx_w st, D_w st, C_w st) =
          without_loop xs (ctx_w (?step st x), D_w (?step st x), C_w (?step st x))"
    by (simp add: spec_step_def Let_def estimateOriginalSize_def mult.commute)
  also have "\<dots> = (ctx_w (foldl ?step (?step st x) xs),
                    D_w (foldl ?step (?step st x) xs),
                    C_w (foldl ?step (?step st x) xs))"
    by (rule Cons.IH)
  finally show ?case by simp
qed

lemma with_loop_as_stream:
  "with_loop pf xs (ctx_e st, D_e st, C_e st) =
     (ctx_e (foldl (spec_step (\<lambda>obs. or_0 (discovery_tokens obs)) (calculateReadTokens pf)) st xs),
      D_e (foldl (spec_step (\<lambda>obs. or_0 (discovery_tokens obs)) (calculateReadTokens pf)) st xs),
      C_e (foldl (spec_step (\<lambda>obs. or_0 (discovery_tokens obs)) (calculateReadTokens pf)) st xs))"
proof (induction xs arbitrary: st)
  case Nil
  show ?case by simp
next
  case (Cons x xs)
  let ?step = "spec_step (\<lambda>obs. or_0 (discovery_tokens obs)) (calculateReadTokens pf)"
  let ?s1 = "?step st x"
  have "with_loop pf (x # xs) (ctx_e st, D_e st, C_e st) =
          with_loop pf xs (ctx_e ?s1, D_e ?s1, C_e ?s1)"
    by (simp add: spec_step_def Let_def)
  also have "\<dots> = (ctx_e (foldl ?step ?s1 xs), D_e (foldl ?step ?s1 xs),
                    C_e (foldl ?step ?s1 xs))"
    by (rule Cons.IH)
  finally show ?case by simp
qed

lemma project_rows_streams:
  "withoutEndlessMode (project_rows pf xs) =
     withoutEndlessMode
       (spec_projection (\<lambda>obs. or_0 (discovery_tokens obs)) (calculateReadTokens pf) xs)
   \<and> withEndlessMode (project_rows pf xs) =
       withEndlessMode
         (spec_projection (\<lambda>obs. or_0 (discovery_tokens obs)) (calculateReadTokens pf) xs)
   \<and> tokensSaved (project_rows pf xs) =
       tokensSaved
         (spec_projection (\<lambda>obs. or_0 (discovery_tokens obs)) (calculateReadTokens pf) xs)"
proof (cases "xs = []")
  case True
  then show ?thesis
    by (simp add: project_rows_def spec_projection_def spec_streams_def empty_projection_def)
next
  case False
  let ?z = "\<lparr>D_w = 0, ctx_w = 0, C_w = 0, D_e = 0, ctx_e = 0, C_e = 0\<rparr>"
  let ?st = "foldl (spec_step (\<lambda>obs. or_0 (discovery_tokens obs)) (calculateReadTokens pf)) ?z xs"
  have w: "without_loop xs (0, 0, 0) = (ctx_w ?st, D_w ?st, C_w ?st)"
    using without_loop_as_stream [of xs ?z "calculateReadTokens pf"] by simp
  have e: "with_loop pf xs (0, 0, 0) = (ctx_e ?st, D_e ?st, C_e ?st)"
    using with_loop_as_stream [of pf xs ?z] by simp
  show ?thesis
    using False
    by (simp add: project_rows_def spec_projection_def spec_streams_def w e Let_def)
qed

lemma spec_step_map:
  "foldl (spec_step f g) st (map h xs) = foldl (spec_step (\<lambda>x. f (h x)) (\<lambda>x. g (h x))) st xs"
  by (induction xs arbitrary: st) (simp_all add: spec_step_def)

lemma spec_projection_map:
  "spec_projection f g (map h xs) = spec_projection (\<lambda>x. f (h x)) (\<lambda>x. g (h x)) xs"
  by (simp add: spec_projection_def spec_streams_def spec_step_map)

lemma where_clause_projection:
  "where_clause (projection_conditions project) rows =
     filter (\<lambda>r. \<not> truthy_str project \<or> c_project r = project) rows"
  by (auto simp: where_clause_def projection_conditions_def truthy_str_def
           split: option.splits intro!: filter_cong)

lemma order_by_created_desc_sorted:
  "sorted_wrt (\<lambda>a b. c_created_at_epoch b \<le> c_created_at_epoch a) (order_by_created_desc rows)"
proof -
  have "sorted (map (\<lambda>r. - c_created_at_epoch r) (order_by_created_desc rows))"
    unfolding order_by_created_desc_def by (rule sorted_sort_key)
  then show ?thesis
    by (simp add: sorted_map)
qed

lemma most_recent_take:
  "most_recent n matching (take n (order_by_created_desc matching))"
proof -
  let ?s = "order_by_created_desc matching"
  have m: "mset ?s = mset matching"
    by (simp add: order_by_created_desc_def)
  have len: "length (take n ?s) = min n (length matching)"
    by (simp add: order_by_created_desc_def min.commute)
  have split: "take n ?s @ drop n ?s = ?s"
    by simp
  have srt: "sorted_wrt (\<lambda>a b. c_created_at_epoch b \<le> c_created_at_epoch a)
               (take n ?s @ drop n ?s)"
    unfolding split by (rule order_by_created_desc_sorted)
  have "mset matching = mset (take n ?s) + mset (drop n ?s)"
    using m split by (metis mset_append)
  then have rest: "mset matching - mset (take n ?s) = mset (drop n ?s)"
    and sub: "mset (take n ?s) \<subseteq># mset matching"
    by simp_all
  from srt have "sorted_wrt (\<lambda>a b. c_created_at_epoch b \<le> c_created_at_epoch a) (take n ?s)"
    and "\<forall>c \<in> set (take n ?s). \<forall>r \<in> set (drop n ?s).
           c_created_at_epoch r \<le> c_created_at_epoch c"
    unfolding sorted_wrt_append by blast+
  with len sub rest show ?thesis
    unfolding most_recent_def by auto
qed

text \<open>
  What \<^verbatim>\<open>getEndlessModeProjection\<close> computes when it does not answer from its cache: the
  streams of the specification over the \<open>N\<close> most recent matching observations, newest
  first, with the read tokens \<^verbatim>\<open>calculateReadTokens\<close> finds on the row as the query
  fetched it; and the all-zero projection when no observation matches.
\<close>

lemma getEndlessModeProjection_streams:
  assumes "db_open store" and "0 \<le> N"
    and "getCached now (''projection:'' @ or_all project @ '':'' @ Number_toString pf (of_int N))
           PROJECTION_CACHE_TTL_MS (cache svc) = None"
  shows "\<exists>recent p svc'.
           getEndlessModeProjection pf now store project N svc = Inr (CProjection p, svc')
           \<and> most_recent (nat N)
                (filter (\<lambda>r. \<not> truthy_str project \<or> c_project r = project)
                   (observations_table store)) recent
           \<and> withoutEndlessMode p =
               withoutEndlessMode (spec_projection spec_discovery_tokens
                  (\<lambda>ob. calculateReadTokens pf (select_projection ob)) recent)
           \<and> withEndlessMode p =
               withEndlessMode (spec_projection spec_discovery_tokens
                  (\<lambda>ob. calculateReadTokens pf (select_projection ob)) recent)
           \<and> tokensSaved p =
               tokensSaved (spec_projection spec_discovery_tokens
                  (\<lambda>ob. calculateReadTokens pf (select_projection ob)) recent)
           \<and> (recent = [] \<longrightarrow> p = empty_projection)"
proof -
  let ?matching = "filter (\<lambda>r. \<not> truthy_str project \<or> c_project r = project)
                     (observations_table store)"
  let ?recent = "take (nat N) (order_by_created_desc ?matching)"
  let ?p = "project_rows pf (map select_projection ?recent)"
  let ?spec = "spec_projection spec_discovery_tokens
                 (\<lambda>ob. calculateReadTokens pf (select_projection ob)) ?recent"
  have q: "recent_observations project N (observations_table store) =
             map select_projection ?recent"
    using assms(2) by (simp add: recent_observations_def sql_limit_def where_clause_projection)
  have d: "(\<lambda>ob. or_0 (discovery_tokens (select_projection ob))) = spec_discovery_tokens"
    by (simp add: fun_eq_iff select_projection_def spec_discovery_tokens_def)
  have sp: "spec_projection (\<lambda>obs. or_0 (discovery_tokens obs)) (calculateReadTokens pf)
              (map select_projection ?recent) = ?spec"
    by (simp only: spec_projection_map d)
  have fields: "withoutEndlessMode ?p = withoutEndlessMode ?spec"
    "withEndlessMode ?p = withEndlessMode ?spec" "tokensSaved ?p = tokensSaved ?spec"
    using project_rows_streams [of pf "map select_projection ?recent"]
    by (simp_all only: sp)
  have e: "?recent = [] \<longrightarrow> ?p = empty_projection"
    by (simp add: project_rows_def)
  let ?key = "''projection:'' @ or_all project @ '':'' @ Number_toString pf (of_int N)"
  have run: "getEndlessModeProjection pf now store project N svc =
               Inr (CProjection ?p, svc\<lparr>cache := setCache now ?key (CProjection ?p) (cache svc)\<rparr>)"
    using assms(1,3) q
    by (simp add: getEndlessModeProjection_def run_query_def Let_def del: append.simps)
  show ?thesis
  proof (intro exI conjI)
    show "getEndlessModeProjection pf now store project N svc =
            Inr (CProjection ?p, svc\<lparr>cache := setCache now ?key (CProjection ?p) (cache svc)\<rparr>)"
      by (rule run)
    show "most_recent (nat N) ?matching ?recent"
      by (rule most_recent_take)
  qed (use fields e in blast)+
qed

text \<open>
  The read tokens found on a fetched row count title, subtitle, narrative and facts:
  the query selects no other column. They are the read tokens of the specification
  when the observation's concepts, files read and files modified are empty.
\<close>

lemma calculateReadTokens_select_projection:
  "calculateReadTokens pf (select_projection ob) =
     \<lceil>(of_int (length_or_0 (c_title ob) + length_or_0 (c_subtitle ob)
        + length_or_0 (c_narrative ob) + getJsonArrayContentLength pf (c_facts ob)) :: rat) / 4\<rceil>"
  by (simp add: calculateReadTokens_def Math_ceil_def CHARS_PER_TOKEN_def Let_def
        select_projection_def getJsonArrayContentLength_def)

lemma calculateReadTokens_select_projection_spec:
  assumes "getJsonArrayContentLength pf (c_concepts ob) = 0"
    and "getJsonArrayContentLength pf (c_files_read ob) = 0"
    and "getJsonArrayContentLength pf (c_files_modified ob) = 0"
  shows "calculateReadTokens pf (select_projection ob) = spec_read_tokens pf ob"
  using assms
  by (simp add: calculateReadTokens_select_projection spec_read_tokens_def spec_charLen_def)

text \<open>Two observations of project \<^verbatim>\<open>p\<close> out of three rows, projected.\<close>

lemma three_store_projection:
  "map_sum id fst (getEndlessModeProjection examples_platform 5000 three_store (Some ''p'') 2
                     \<lparr>cache = [], lastBroadcastTime = 0\<rparr>) =
     Inr (CProjection
       \<lparr>withoutEndlessMode =
          \<lparr>totalTokens = 550, discoveryTokens = 150, continuationTokens = 400\<rparr>,
        withEndlessMode =
          \<lparr>totalTokens = 155, discoveryTokens = 150, continuationTokens = 5\<rparr>,
        tokensSaved = 395, percentSaved = fl64 (718 / 10), efficiencyGain_p = fl64 (35 / 10)\<rparr>)"
  by code_simp

text \<open>
  C3: for every project filter and count \<open>N\<close>, \<^verbatim>\<open>getEndlessModeProjection\<close> should take
  the \<open>N\<close> most recent matching observations, newest first, and return what the two
  cumulative streams give over that sequence: without endless mode
  \<open>D_w += discoveryTokens\<close>, \<open>ctx_w += 2 * discoveryTokens\<close>, \<open>C_w += ctx_w\<close>; with it
  \<open>D_e += discoveryTokens\<close>, \<open>ctx_e += readTokens(obs)\<close>, \<open>C_e += ctx_e\<close>; the totals
  \<open>D + C\<close>, \<open>tokensSaved\<close> their difference, \<open>percentSaved\<close> and \<open>efficiencyGain\<close> the
  rounded ratios. The read tokens of an observation are those of the specification's
  heuristic, counted over title, subtitle, narrative, facts, concepts, files read and
  files modified. The query of \<^verbatim>\<open>getEndlessModeProjection\<close>
  selects \<^verbatim>\<open>id, type, title, subtitle, narrative, facts, discovery_tokens\<close> only, so
  \<^verbatim>\<open>calculateReadTokens\<close>, which reads the other three columns too, finds them
  \<^verbatim>\<open>undefined\<close> and counts nothing for them. On a store holding one observation with
  title \<^verbatim>\<open>ok\<close> and concepts \<^verbatim>\<open>["abcd"]\<close> that cost 40 tokens, the projection has 41 tokens
  with endless mode, 79 tokens saved and 65.8 per cent saved; the streams of the
  specification give 42, 78 and 65.
\<close>

theorem C3_projection_omits_columns:
  \<open>map_sum id fst (getEndlessModeProjection examples_platform 5000 concepts_store None 50
                     \<lparr>cache = [], lastBroadcastTime = 0\<rparr>) =
     Inr (CProjection
       \<lparr>withoutEndlessMode =
          \<lparr>totalTokens = 120, discoveryTokens = 40, continuationTokens = 80\<rparr>,
        withEndlessMode =
          \<lparr>totalTokens = 41, discoveryTokens = 40, continuationTokens = 1\<rparr>,
        tokensSaved = 79, percentSaved = fl64 (658 / 10), efficiencyGain_p = fl64 (29 / 10)\<rparr>)
   \<and> map (spec_read_tokens examples_platform) (observations_table concepts_store) = [2]
   \<and> spec_projection spec_discovery_tokens (spec_read_tokens examples_platform)
        (observations_table concepts_store) =
       \<lparr>withoutEndlessMode =
          \<lparr>totalTokens = 120, discoveryTokens = 40, continuationTokens = 80\<rparr>,
        withEndlessMode =
          \<lparr>totalTokens = 42, discoveryTokens = 40, continuationTokens = 2\<rparr>,
        tokensSaved = 78, percentSaved = 65, efficiencyGain_p = fl64 (29 / 10)\<rparr>\<close>
  by code_simp

text \<open>
  The two ratios of the projection are rounded as the percentage of the summary is: the
  code divides first, in doubles. One observation of 764 characters that cost 400
  tokens saves 609 of 1200 tokens, which is 50.75 per cent and rounds to 50.8; the
  double product lies below 507.5 and gives 50.7.
\<close>

lemma projection_percentSaved_in_doubles:
  "map_sum id fst (getEndlessModeProjection examples_platform 5000 long_store None 50
                     \<lparr>cache = [], lastBroadcastTime = 0\<rparr>) =
     Inr (CProjection
       \<lparr>withoutEndlessMode =
          \<lparr>totalTokens = 1200, discoveryTokens = 400, continuationTokens = 800\<rparr>,
        withEndlessMode =
          \<lparr>totalTokens = 591, discoveryTokens = 400, continuationTokens = 191\<rparr>,
        tokensSaved = 609, percentSaved = fl64 (507 / 10), efficiencyGain_p = 2\<rparr>)
   \<and> spec_projection spec_discovery_tokens (spec_read_tokens examples_platform)
        (observations_table long_store) =
       \<lparr>withoutEndlessMode =
          \<lparr>totalTokens = 1200, discoveryTokens = 400, continuationTokens = 800\<rparr>,
        withEndlessMode =
          \<lparr>totalTokens = 591, discoveryTokens = 400, continuationTokens = 191\<rparr>,
        tokensSaved = 609, percentSaved = fl64 (508 / 10), efficiencyGain_p = 2\<rparr>
   \<and> fl64 (507 / 10) < fl64 (508 / 10)"
  by code_simp

section \<open>Rounding to doubles\<close>

text \<open>
  \<open>fl64\<close> keeps the sign of a positive number and does not cross an integer below
  \<open>2 ^ 53\<close>: such integers are doubles.
\<close>

lemma pow2_powi: "pow2 k = 2 powi k"
  by (simp add: pow2_def power_int_def power_inverse [symmetric] inverse_eq_divide power_one_over)

lemma pow2_pos: "0 < pow2 k"
  by (simp add: pow2_powi)

lemma pow2_nat: "pow2 (int n) = 2 ^ n"
  by (simp add: pow2_def)

lemma pow2_diff: "pow2 (a - b) = pow2 a / pow2 b"
  by (simp add: pow2_powi power_int_diff)

lemma pow2_mono: "a \<le> b \<Longrightarrow> pow2 a \<le> pow2 b"
  by (simp add: pow2_powi power_int_increasing)

lemma pow2_less_D: "pow2 a < pow2 b \<Longrightarrow> a < b"
  using pow2_mono [of b a] by (cases "a < b") auto

lemma binary_exponent_le:
  assumes "0 < x"
  shows "pow2 (binary_exponent x) \<le> x"
proof -
  obtain p q where pq: "quotient_of x = (p, q)" by (cases "quotient_of x")
  then have q: "0 < q" and x: "x = of_int p / of_int q"
    by (simp_all add: quotient_of_denom_pos quotient_of_div)
  with assms have p: "0 < p"
    by (simp add: zero_less_divide_iff)
  let ?e0 = "bitlen p - bitlen q"
  show ?thesis
  proof (cases "x < pow2 ?e0")
    case False
    with pq show ?thesis
      by (simp add: binary_exponent_def Let_def)
  next
    case True
    have bp: "2 ^ nat (bitlen p - 1) \<le> p" and bq: "q < 2 ^ nat (bitlen q)"
      using bitlen_bounds [OF p] bitlen_bounds [OF q] by simp_all
    have bq0: "0 \<le> bitlen q"
      by (rule bitlen_nonneg)
    have bp1: "1 \<le> bitlen p"
      using bitlen_bounds [OF p] p by (cases "bitlen p \<le> 0") auto
    have "pow2 (?e0 - 1) = pow2 (bitlen p - 1) / pow2 (bitlen q)"
      using pow2_diff [of "bitlen p - 1" "bitlen q"] by (simp add: algebra_simps)
    also have "\<dots> = 2 ^ nat (bitlen p - 1) / 2 ^ nat (bitlen q)"
      using bp1 bq0 by (simp add: pow2_def)
    also have "\<dots> \<le> of_int p / 2 ^ nat (bitlen q)"
    proof -
      have "(2::rat) ^ nat (bitlen p - 1) \<le> of_int p"
        using bp by (metis of_int_le_iff of_int_numeral of_int_power)
      then show ?thesis
        by (simp add: divide_right_mono)
    qed
    also have "\<dots> \<le> of_int p / of_int q"
    proof -
      have "(of_int q :: rat) \<le> 2 ^ nat (bitlen q)"
        using bq by (metis less_imp_le of_int_le_iff of_int_numeral of_int_power)
      with p q show ?thesis
        by (simp add: divide_left_mono)
    qed
    finally have "pow2 (?e0 - 1) \<le> x"
      using x by simp
    with True pq show ?thesis
      by (simp add: binary_exponent_def Let_def)
  qed
qed

lemma round_ties_even_bounds:
  "\<lfloor>q\<rfloor> \<le> round_ties_even q" "q \<le> of_int k \<Longrightarrow> round_ties_even q \<le> k"
   "of_int k \<le> q \<Longrightarrow> k \<le> round_ties_even q"
proof -
  show f: "\<lfloor>q\<rfloor> \<le> round_ties_even q"
    by (simp add: round_ties_even_def Let_def)
  show "round_ties_even q \<le> k" if "q \<le> of_int k"
  proof (cases "q = of_int \<lfloor>q\<rfloor>")
    case True
    then have "round_ties_even q = \<lfloor>q\<rfloor>"
      by (simp add: round_ties_even_def Let_def)
    with that show ?thesis
      by (simp add: floor_le_iff)
  next
    case False
    then have "of_int \<lfloor>q\<rfloor> < q"
      using of_int_floor_le [of q] by (simp only: less_le) (blast dest: sym)
    with that have "\<lfloor>q\<rfloor> < k"
      by (metis floor_less_iff less_le_trans floor_of_int)
    moreover have "round_ties_even q \<le> \<lfloor>q\<rfloor> + 1"
      by (simp add: round_ties_even_def Let_def)
    ultimately show ?thesis by simp
  qed
  show "k \<le> round_ties_even q" if "of_int k \<le> q"
  proof -
    from that have "k \<le> \<lfloor>q\<rfloor>" by (simp add: le_floor_iff)
    with f show ?thesis by simp
  qed
qed

lemma fl64_between:
  assumes "0 < x" and "(n::nat) < 2 ^ 53"
  shows "0 < fl64 x"
    and "x \<le> of_nat n \<Longrightarrow> fl64 x \<le> of_nat n"
    and "0 < n \<Longrightarrow> of_nat n \<le> x \<Longrightarrow> of_nat n \<le> fl64 x"
proof -
  define e where "e = binary_exponent x"
  define u where "u = pow2 (e - 52)"
  have u: "0 < u" by (simp add: u_def pow2_pos)
  have fl: "fl64 x = of_int (round_ties_even (x / u)) * u"
    using assms(1) by (simp add: fl64_def Let_def e_def u_def)
  have lo: "pow2 e \<le> x"
    unfolding e_def using assms(1) by (rule binary_exponent_le)
  have "pow2 e / u = 2 ^ 52"
    using pow2_diff [of e "e - 52"] by (simp add: u_def pow2_def)
  with lo u have "(2::rat) ^ 52 \<le> x / u"
    by (metis divide_right_mono less_imp_le)
  then have "of_int (2 ^ 52) \<le> x / u" by simp
  then have "2 ^ 52 \<le> round_ties_even (x / u)"
    by (rule round_ties_even_bounds(3))
  then have "0 < round_ties_even (x / u)" by simp
  with u show "0 < fl64 x"
    by (simp add: fl)
  have int_mult: "\<exists>K. of_nat n / u = of_int K" if "pow2 e \<le> of_nat n"
  proof -
    have "pow2 e < pow2 53"
    proof -
      have "(of_nat n :: rat) < 2 ^ 53"
        using assms(2) by (metis of_nat_less_iff of_nat_numeral of_nat_power)
      with that show ?thesis by (simp add: pow2_def)
    qed
    then have "e < 53" by (rule pow2_less_D)
    then have "1 / u = 2 ^ nat (52 - e)"
      using pow2_diff [of 0 "e - 52"] by (simp add: u_def pow2_def)
    moreover have "of_nat n / u = of_nat n * (1 / u)"
      by simp
    ultimately have "of_nat n / u = of_int (int n * 2 ^ nat (52 - e))"
      by (simp only: of_int_mult of_int_of_nat_eq of_int_power of_int_numeral)
    then show ?thesis ..
  qed
  show "fl64 x \<le> of_nat n" if "x \<le> of_nat n"
  proof -
    from lo that have "pow2 e \<le> of_nat n" by simp
    then obtain K where K: "of_nat n / u = of_int K" using int_mult by blast
    from that u have "x / u \<le> of_nat n / u"
      by (simp add: divide_right_mono)
    then have "round_ties_even (x / u) \<le> K"
      unfolding K by (rule round_ties_even_bounds(2))
    then have "(of_int (round_ties_even (x / u)) :: rat) \<le> of_int K" by simp
    then have "of_int (round_ties_even (x / u)) * u \<le> of_int K * u"
      using u by (simp add: mult_right_mono)
    also have "of_int K * u = of_nat n"
      using K u by (simp add: field_simps)
    finally show ?thesis by (simp add: fl)
  qed
  show "of_nat n \<le> fl64 x" if "0 < n" "of_nat n \<le> x"
  proof (cases "pow2 e \<le> of_nat n")
    case True
    then obtain K where K: "of_nat n / u = of_int K" using int_mult by blast
    from that u have "of_nat n / u \<le> x / u"
      by (simp add: divide_right_mono)
    then have "K \<le> round_ties_even (x / u)"
      unfolding K by (rule round_ties_even_bounds(3))
    then have "(of_int K :: rat) \<le> of_int (round_ties_even (x / u))" by simp
    then have "of_int K * u \<le> of_int (round_ties_even (x / u)) * u"
      using u by (simp add: mult_right_mono)
    moreover have "of_int K * u = of_nat n"
      using K u by (simp add: field_simps)
    ultimately show ?thesis by (simp add: fl)
  next
    case False
    then have "of_nat n < pow2 e" by simp
    also have "pow2 e = 2 ^ 52 * u"
      using \<open>pow2 e / u = 2 ^ 52\<close> u by (simp add: field_simps)
    also have "\<dots> \<le> of_int (round_ties_even (x / u)) * u"
    proof -
      have "(2 ^ 52 :: rat) \<le> of_int (round_ties_even (x / u))"
        using \<open>2 ^ 52 \<le> round_ties_even (x / u)\<close>
        by (metis of_int_le_iff of_int_numeral of_int_power)
      then show ?thesis using u by (simp add: mult_right_mono)
    qed
    finally show ?thesis by (simp add: fl)
  qed
qed

lemma fl64_of_nat: "n < 2 ^ 53 \<Longrightarrow> fl64 (of_nat n) = of_nat n"
proof (cases "n = 0")
  case True
  then show ?thesis by (simp add: fl64_def)
next
  case False
  assume "n < 2 ^ 53"
  with False fl64_between(2,3) [of "of_nat n" n] show ?thesis
    by simp
qed

lemma nearest_rank_in_range:
  assumes "0 < n" and "n < 2 ^ 53" and "0 < p" and "p \<le> 100"
  shows "1 \<le> Math_ceil (js_mul (js_div p 100) (of_nat n))"
    and "Math_ceil (js_mul (js_div p 100) (of_nat n)) \<le> int n"
proof -
  have c: "0 < js_div p 100" "js_div p 100 \<le> 1"
    using fl64_between(1,2) [of "p / 100" 1] assms(3,4) by (simp_all add: js_div_def)
  have n: "(0::rat) < of_nat n"
    using assms(1) by simp
  from c n have "0 < js_div p 100 * of_nat n"
    by simp
  moreover have "js_div p 100 * of_nat n \<le> of_nat n"
    using c(2) n by (simp add: mult_le_cancel_right1)
  ultimately have y: "0 < js_mul (js_div p 100) (of_nat n)"
      "js_mul (js_div p 100) (of_nat n) \<le> of_nat n"
    using fl64_between(1,2) [of "js_div p 100 * of_nat n" n] assms(2)
    by (simp_all add: js_mul_def)
  from y(1) show "1 \<le> Math_ceil (js_mul (js_div p 100) (of_nat n))"
    by (simp add: Math_ceil_def)
  from y(2) show "Math_ceil (js_mul (js_div p 100) (of_nat n)) \<le> int n"
    by (simp add: Math_ceil_def ceiling_le_iff)
qed

text \<open>
  More generally \<open>fl64\<close> does not cross a dyadic fraction \<open>a / 2 ^ j\<close> with \<open>a\<close> below
  \<open>2 ^ 53\<close>. So the double product \<open>(p / 100) * n\<close> has the ceiling of the exact one for
  the two percentiles and up to 500 samples, and the rounded double quotient of a sum
  of durations by their number is the rounded exact mean.
\<close>

lemma fl64_between_dyadic:
  assumes "0 < x" and "(a::nat) < 2 ^ 53"
  shows "x \<le> of_nat a / 2 ^ j \<Longrightarrow> fl64 x \<le> of_nat a / 2 ^ j"
    and "of_nat a / 2 ^ j \<le> x \<Longrightarrow> of_nat a / 2 ^ j \<le> fl64 x"
proof -
  define e where "e = binary_exponent x"
  define u where "u = pow2 (e - 52)"
  define b :: rat where "b = of_nat a / 2 ^ j"
  have u: "0 < u" by (simp add: u_def pow2_pos)
  have fl: "fl64 x = of_int (round_ties_even (x / u)) * u"
    using assms(1) by (simp add: fl64_def Let_def e_def u_def)
  have lo: "pow2 e \<le> x"
    unfolding e_def using assms(1) by (rule binary_exponent_le)
  have p52: "pow2 e / u = 2 ^ 52"
    using pow2_diff [of e "e - 52"] by (simp add: u_def pow2_def)
  with lo u have "(2::rat) ^ 52 \<le> x / u"
    by (metis divide_right_mono less_imp_le)
  then have "of_int (2 ^ 52) \<le> x / u" by simp
  then have r52: "2 ^ 52 \<le> round_ties_even (x / u)"
    by (rule round_ties_even_bounds(3))
  have int_mult: "\<exists>K. b / u = of_int K" if "pow2 e \<le> b"
  proof -
    have "(of_nat a :: rat) < 2 ^ 53"
      using assms(2) by (metis of_nat_less_iff of_nat_numeral of_nat_power)
    then have "b < 2 ^ 53 / 2 ^ j"
      by (simp add: b_def divide_strict_right_mono)
    also have "\<dots> = pow2 (53 - int j)"
      using pow2_diff [of 53 "int j"] by (simp add: pow2_def)
    finally have "pow2 e < pow2 (53 - int j)"
      using that by simp
    then have ej: "e < 53 - int j" by (rule pow2_less_D)
    have "1 / (2 ^ j * u) = pow2 (52 - e - int j)"
    proof -
      have "pow2 (52 - e - int j) = pow2 (- int j) / pow2 (e - 52)"
        using pow2_diff [of "- int j" "e - 52"] by (simp add: algebra_simps)
      also have "pow2 (- int j) = 1 / 2 ^ j"
        by (simp add: pow2_powi power_int_minus inverse_eq_divide)
      finally show ?thesis
        by (simp add: u_def)
    qed
    also have "\<dots> = 2 ^ nat (52 - e - int j)"
      using ej by (simp add: pow2_def)
    finally have "1 / (2 ^ j * u) = 2 ^ nat (52 - e - int j)" .
    moreover have "b / u = of_nat a * (1 / (2 ^ j * u))"
      by (simp add: b_def)
    ultimately have "b / u = of_int (int a * 2 ^ nat (52 - e - int j))"
      by (simp only: of_int_mult of_int_of_nat_eq of_int_power of_int_numeral)
    then show ?thesis ..
  qed
  show "fl64 x \<le> of_nat a / 2 ^ j" if "x \<le> of_nat a / 2 ^ j"
  proof -
    from that have xb: "x \<le> b" by (simp add: b_def)
    with lo have "pow2 e \<le> b" by simp
    then obtain K where K: "b / u = of_int K" using int_mult by blast
    from xb u have "x / u \<le> b / u"
      by (simp add: divide_right_mono)
    then have "round_ties_even (x / u) \<le> K"
      unfolding K by (rule round_ties_even_bounds(2))
    then have "(of_int (round_ties_even (x / u)) :: rat) \<le> of_int K" by simp
    then have "of_int (round_ties_even (x / u)) * u \<le> of_int K * u"
      using u by (simp add: mult_right_mono)
    also have "of_int K * u = b"
      using K u by (simp add: field_simps)
    finally show ?thesis by (simp add: fl b_def)
  qed
  show "of_nat a / 2 ^ j \<le> fl64 x" if "of_nat a / 2 ^ j \<le> x"
  proof (cases "pow2 e \<le> b")
    case True
    then obtain K where K: "b / u = of_int K" using int_mult by blast
    from that have "b \<le> x" by (simp add: b_def)
    with u have "b / u \<le> x / u"
      by (simp add: divide_right_mono)
    then have "K \<le> round_ties_even (x / u)"
      unfolding K by (rule round_ties_even_bounds(3))
    then have "(of_int K :: rat) \<le> of_int (round_ties_even (x / u))" by simp
    then have "of_int K * u \<le> of_int (round_ties_even (x / u)) * u"
      using u by (simp add: mult_right_mono)
    moreover have "of_int K * u = b"
      using K u by (simp add: field_simps)
    ultimately show ?thesis by (simp add: fl b_def)
  next
    case False
    then have "b < pow2 e" by simp
    also have "pow2 e = 2 ^ 52 * u"
      using p52 u by (simp add: field_simps)
    also have "\<dots> \<le> of_int (round_ties_even (x / u)) * u"
    proof -
      have "(2 ^ 52 :: rat) \<le> of_int (round_ties_even (x / u))"
        using r52 by (metis of_int_le_iff of_int_numeral of_int_power)
      then show ?thesis using u by (simp add: mult_right_mono)
    qed
    finally show ?thesis by (simp add: fl b_def)
  qed
qed


lemma nearest_rank_exact:
  assumes "0 < n" and "n \<le> 500" and "0 < m" and "m \<le> 20"
    and "0 < c" and "c \<le> of_nat m / 20" and "of_nat m / 20 - c \<le> 1 / 2 ^ 40"
  shows "Math_ceil (fl64 (c * of_nat n)) = \<lceil>(of_nat m / 20 :: rat) * of_nat n\<rceil>"
proof -
  define k where "k = \<lceil>(of_nat m / 20 :: rat) * of_nat n\<rceil>"
  define x where "x = c * of_nat n"
  have n: "(0::rat) < of_nat n" "(of_nat n :: rat) \<le> 500"
    using assms(1,2) by simp_all
  have x: "0 < x"
    using assms(5) n by (simp add: x_def)
  have exact: "(of_nat m / 20 :: rat) * of_nat n = of_int (int m * int n) / 20"
    by simp
  have up: "(of_nat m / 20 :: rat) * of_nat n \<le> of_int k"
    and low: "of_int k - 1 < (of_nat m / 20 :: rat) * of_nat n"
    unfolding k_def by linarith+
  have "0 < (of_nat m / 20 :: rat) * of_nat n"
    using assms(1,3) by simp
  with up have "(0::rat) < of_int k" by linarith
  then have k1: "1 \<le> k" by simp
  have "int m * int n \<le> 20 * 500"
    using assms(2,4) by (intro mult_mono) simp_all
  then have "(of_int (int m * int n) :: rat) \<le> of_int (20 * 500)"
    by (simp only: of_int_le_iff)
  then have "(of_int (int m * int n) :: rat) / 20 \<le> 500"
    by simp
  with low exact have "of_int k < (501 :: rat)" by linarith
  then have k501: "k < 501" by simp
  from low exact have "(of_int (20 * (k - 1)) :: rat) < of_int (int m * int n)"
    by (simp add: field_simps)
  then have "20 * (k - 1) < int m * int n"
    by (simp only: of_int_less_iff)
  then have "20 * (k - 1) + 1 \<le> int m * int n" by simp
  then have "(of_int (20 * (k - 1) + 1) :: rat) \<le> of_int (int m * int n)"
    by (simp only: of_int_le_iff)
  then have step: "of_int k - 1 + 1 / 20 \<le> (of_nat m / 20 :: rat) * of_nat n"
    unfolding exact by (simp add: field_simps)
  have "x \<le> (of_nat m / 20) * of_nat n"
    unfolding x_def using assms(6) n by (simp add: mult_right_mono)
  with up have xk: "x \<le> of_int k" by linarith
  have "(of_nat m / 20) * of_nat n - x = (of_nat m / 20 - c) * of_nat n"
    by (simp add: x_def algebra_simps)
  also have "\<dots> \<le> (1 / 2 ^ 40) * 500"
    using assms(6,7) n by (intro mult_mono) simp_all
  finally have "(of_nat m / 20) * of_nat n - x \<le> 1 / 20 - 1 / 32"
    by simp
  with step have kx: "of_int k - 1 + 1 / 32 \<le> x" by linarith
  define a where "a = nat (32 * (k - 1) + 1)"
  have a: "(of_nat a :: rat) / 2 ^ 5 = of_int k - 1 + 1 / 32" "a < 2 ^ 53"
    using k1 k501 by (simp_all add: a_def field_simps)
  have kn: "(of_nat (nat k) :: rat) / 2 ^ 0 = of_int k" "nat k < 2 ^ 53"
    using k1 k501 by simp_all
  from fl64_between_dyadic(2) [OF x a(2), of 5] kx a(1)
  have lo: "of_int k - 1 + 1 / 32 \<le> fl64 x" by simp
  from fl64_between_dyadic(1) [OF x kn(2), of 0] xk kn(1)
  have hi: "fl64 x \<le> of_int k" by simp
  from lo hi have "\<lceil>fl64 x\<rceil> = k"
    by (intro ceiling_unique) linarith+
  then show ?thesis
    by (simp add: Math_ceil_def x_def k_def)
qed

lemma js_div_50_100: "js_div 50 100 = 1 / 2"
  by code_simp

lemma js_div_95_100:
  "0 < js_div 95 100 \<and> js_div 95 100 \<le> 19 / 20 \<and> 19 / 20 - js_div 95 100 \<le> 1 / 2 ^ 40"
  by code_simp

lemma nearest_rank_50_95:
  assumes "0 < n" and "n \<le> 500"
  shows "Math_ceil (js_mul (js_div 50 100) (of_nat n)) = \<lceil>(50 / 100 :: rat) * of_nat n\<rceil>"
    and "Math_ceil (js_mul (js_div 95 100) (of_nat n)) = \<lceil>(95 / 100 :: rat) * of_nat n\<rceil>"
proof -
  from nearest_rank_exact [OF assms, of 10 "js_div 50 100"]
  show "Math_ceil (js_mul (js_div 50 100) (of_nat n)) = \<lceil>(50 / 100 :: rat) * of_nat n\<rceil>"
    by (simp add: js_div_50_100 js_mul_def)
  from nearest_rank_exact [OF assms, of 19 "js_div 95 100"] js_div_95_100
  show "Math_ceil (js_mul (js_div 95 100) (of_nat n)) = \<lceil>(95 / 100 :: rat) * of_nat n\<rceil>"
    by (simp add: js_mul_def)
qed

lemma rounded_mean_exact:
  assumes "0 < n" and "n \<le> 500" and "0 \<le> S" and "S \<le> 2 ^ 42 * int n"
  shows "Math_round (js_div (of_int S) (of_nat n)) = round ((of_int S :: rat) / of_nat n)"
proof (cases "S = 0")
  case True
  then show ?thesis
    by (simp add: js_div_def fl64_def Math_round_def round_def)
next
  case False
  define x :: rat where "x = of_int S / of_nat n"
  define k where "k = round x"
  have n: "(0::rat) < of_nat n" using assms(1) by simp
  from False assms(3) have "0 < S" by simp
  with n have x: "0 < x" by (simp add: x_def)
  have kl: "of_int k \<le> x + 1 / 2" and ku: "x + 1 / 2 < of_int k + 1"
    unfolding k_def round_def by linarith+
  from x ku have "(0::rat) < of_int k + 1" by linarith
  then have k0: "0 \<le> k"
    by (metis of_int_0_less_iff of_int_1 of_int_add zless_add1_eq order_le_less)
  have "x \<le> 2 ^ 42"
  proof -
    have "(of_int S :: rat) \<le> of_int (2 ^ 42 * int n)"
      using assms(4) by (simp only: of_int_le_iff)
    then show ?thesis
      using n by (simp add: x_def divide_le_eq)
  qed
  with kl have "(of_int k :: rat) \<le> 2 ^ 42 + 1 / 2" by linarith
  then have "(of_int k :: rat) < of_int (2 ^ 42 + 1)" by simp
  then have "k < 2 ^ 42 + 1" by (simp only: of_int_less_iff)
  then have kb: "k \<le> 2 ^ 42" by simp
  have xe: "x + 1 / 2 = of_int (2 * S + int n) / of_int (2 * int n)"
    using n by (simp add: x_def field_simps)
  from ku have "(of_int (2 * S + int n) :: rat) < of_int ((k + 1) * (2 * int n))"
    unfolding xe using n by (simp add: divide_less_eq algebra_simps)
  then have "2 * S + int n < (k + 1) * (2 * int n)"
    by (simp only: of_int_less_iff)
  then have "2 * S + int n + 1 \<le> (k + 1) * (2 * int n)" by simp
  then have "(of_int (2 * S + int n + 1) :: rat) \<le> of_int ((k + 1) * (2 * int n))"
    by (simp only: of_int_le_iff)
  then have "x + 1 / 2 + 1 / of_int (2 * int n) \<le> of_int k + 1"
    unfolding xe using n by (simp add: field_simps)
  moreover have "(1 :: rat) / 1024 \<le> 1 / of_int (2 * int n)"
    using assms(1,2) by (simp add: field_simps)
  ultimately have xu: "x \<le> of_int k + 1 / 2 - 1 / 1024" by linarith
  define a where "a = nat (1024 * k + 511)"
  have a: "(of_nat a :: rat) / 2 ^ 10 = of_int k + 1 / 2 - 1 / 1024" "a < 2 ^ 53"
    using k0 kb by (simp_all add: a_def field_simps)
  from fl64_between_dyadic(1) [OF x a(2), of 10] xu a(1)
  have hi: "fl64 x \<le> of_int k + 1 / 2 - 1 / 1024" by simp
  have lo: "of_int k \<le> fl64 x + 1 / 2"
  proof (cases "k = 0")
    case True
    from fl64_between(1) [OF x, of 0] have "0 < fl64 x" by simp
    with True show ?thesis by simp
  next
    case False
    with k0 have k1: "1 \<le> k" by simp
    define b where "b = nat (2 * k - 1)"
    have b: "(of_nat b :: rat) / 2 ^ 1 = of_int k - 1 / 2" "b < 2 ^ 53"
      using k1 kb by (simp_all add: b_def field_simps)
    from kl have "of_int k - 1 / 2 \<le> x" by linarith
    with fl64_between_dyadic(2) [OF x b(2), of 1] b(1)
    have "of_int k - 1 / 2 \<le> fl64 x" by simp
    then show ?thesis by linarith
  qed
  from lo hi have "\<lfloor>fl64 x + 1 / 2\<rfloor> = k"
    by (intro floor_unique) linarith+
  then show ?thesis
    by (simp add: Math_round_def js_div_def x_def k_def)
qed

section \<open>Processing-time statistics\<close>

text \<open>Scenario 6 of the specification, with the samples recorded out of order.\<close>

lemma scenario_6:
  "stats (getProcessingTimes examples_platform 1700000010000 None 100
            (sample_tracker [30, 10, 50, 20, 40])) =
     \<lparr>avgProcessingTime = 30, p50ProcessingTime = 30, p95ProcessingTime = 50,
      avgQueueDepth = 0, peakQueueDepth = 0, observationsPerMinute = 75\<rparr>"
  by code_simp

text \<open>
  C9, as the specification states it, fails on the code in its last part: with an empty
  filtered set of processing records not all returned stats are zero. A fresh tracker
  that has recorded one queue sample of depth 3 reports an average and a peak queue
  depth of 3.
\<close>

theorem C9_getProcessingTimes_counterexample:
  "times (getProcessingTimes examples_platform 1700000010000 None 100
            (recordQueueSample 1700000009000 3 1 fresh_tracker)) = []
   \<and> avgQueueDepth (stats (getProcessingTimes examples_platform 1700000010000 None 100
            (recordQueueSample 1700000009000 3 1 fresh_tracker))) = 3
   \<and> peakQueueDepth (stats (getProcessingTimes examples_platform 1700000010000 None 100
            (recordQueueSample 1700000009000 3 1 fresh_tracker))) = 3"
  by code_simp

lemma recordProcessingTime_bounded:
  "length (processingTimes tr) \<le> MAX_PROCESSING_TIMES \<Longrightarrow>
   length (processingTimes (recordProcessingTime r tr)) \<le> MAX_PROCESSING_TIMES"
  by (simp add: recordProcessingTime_def Let_def)

lemma js_slice_from_length: "length (js_slice_from k xs) \<le> length xs"
  by (simp add: js_slice_from_def Let_def)

lemma sum_list_bounds:
  "\<forall>d \<in> set ds. 0 \<le> d \<and> d \<le> B \<Longrightarrow>
   (0::int) \<le> sum_list ds \<and> sum_list ds \<le> B * int (length ds)"
  by (induction ds) (auto simp: algebra_simps)

text \<open>
  C9 (amended): on a tracker within its bound of 500 processing records, for every
  non-empty filtered set \<^verbatim>\<open>getProcessingTimes\<close> returns as p50 and p95 the elements of the
  sorted durations at index \<open>ceil(p / 100 * n) - 1\<close> (an index of the array; the index
  computed in doubles is the exact one) and as avg the rounded mean (the exact one when
  the durations lie between 0 and \<open>2 ^ 42\<close> milliseconds); for an empty filtered set avg,
  p50, p95 and observationsPerMinute are zero. In both cases avgQueueDepth and
  peakQueueDepth are those of \<^verbatim>\<open>getQueueHistory(since)\<close>.
\<close>

theorem C9_getProcessingTimes_stats:
  assumes "length (processingTimes tr) \<le> MAX_PROCESSING_TIMES"
  shows
  "(times (getProcessingTimes pf now since limit tr) \<noteq> [] \<longrightarrow>
      (let durations = sort (map duration (times (getProcessingTimes pf now since limit tr)));
           n = length durations;
           index = (\<lambda>p. Math_ceil (js_mul (js_div p 100) (of_nat n)) - 1);
           st = stats (getProcessingTimes pf now since limit tr)
       in avgProcessingTime st = Math_round (js_div (of_int (sum_list durations)) (of_nat n))
          \<and> p50ProcessingTime st = durations ! nat (index 50)
          \<and> p95ProcessingTime st = durations ! nat (index 95)
          \<and> 0 \<le> index 50 \<and> index 50 < int n \<and> 0 \<le> index 95 \<and> index 95 < int n
          \<and> index 50 = \<lceil>(50 / 100 :: rat) * of_nat n\<rceil> - 1
          \<and> index 95 = \<lceil>(95 / 100 :: rat) * of_nat n\<rceil> - 1
          \<and> ((\<forall>d \<in> set durations. 0 \<le> d \<and> d \<le> 2 ^ 42) \<longrightarrow>
                avgProcessingTime st = round ((of_int (sum_list durations) :: rat) / of_nat n))))
   \<and> (times (getProcessingTimes pf now since limit tr) = [] \<longrightarrow>
        (let st = stats (getProcessingTimes pf now since limit tr)
         in avgProcessingTime st = 0 \<and> p50ProcessingTime st = 0 \<and> p95ProcessingTime st = 0
            \<and> observationsPerMinute st = 0))
   \<and> avgQueueDepth (stats (getProcessingTimes pf now since limit tr)) =
        avgQueueDepth_q (stats_q (getQueueHistory pf now since 100 tr))
   \<and> peakQueueDepth (stats (getProcessingTimes pf now since limit tr)) =
        peakQueueDepth_q (stats_q (getQueueHistory pf now since 100 tr))"
proof -
  define f where "f = js_slice_from (- limit)
       (filter (\<lambda>p. timestamp_p p \<ge> or_default (parseSince pf now since) (now - 24 * 60 * 60 * 1000))
          (processingTimes tr))"
  define ds where "ds = sort (map duration f)"
  have len: "length ds = length f"
    by (simp add: ds_def)
  have "length f \<le> length (processingTimes tr)"
    unfolding f_def
    by (rule order_trans [OF js_slice_from_length]) simp
  with assms len have cap: "length ds \<le> 500"
    by (simp add: MAX_PROCESSING_TIMES_def)
  then have small: "length ds < 2 ^ 53"
    by simp
  have t: "times (getProcessingTimes pf now since limit tr) = f"
    by (simp add: getProcessingTimes_def Let_def f_def)
  have q: "avgQueueDepth (stats (getProcessingTimes pf now since limit tr)) =
             avgQueueDepth_q (stats_q (getQueueHistory pf now since 100 tr))"
          "peakQueueDepth (stats (getProcessingTimes pf now since limit tr)) =
             peakQueueDepth_q (stats_q (getQueueHistory pf now since 100 tr))"
    by (simp_all add: getProcessingTimes_def Let_def)
  have e: "f = [] \<Longrightarrow>
        avgProcessingTime (stats (getProcessingTimes pf now since limit tr)) = 0
        \<and> p50ProcessingTime (stats (getProcessingTimes pf now since limit tr)) = 0
        \<and> p95ProcessingTime (stats (getProcessingTimes pf now since limit tr)) = 0
        \<and> observationsPerMinute (stats (getProcessingTimes pf now since limit tr)) = 0"
    unfolding getProcessingTimes_def Let_def f_def [symmetric] by simp
  have rank: "1 \<le> Math_ceil (js_mul (js_div p 100) (of_nat (length ds)))
              \<and> Math_ceil (js_mul (js_div p 100) (of_nat (length ds))) \<le> int (length ds)"
    if "f \<noteq> []" "0 < p" "p \<le> 100" for p
    using nearest_rank_in_range [of "length ds" p] that small len by simp
  have clamp: "max 0 (min (Math_ceil (js_mul (js_div p 100) (of_nat (length ds))) - 1)
                       (int (length ds) - 1)) =
               Math_ceil (js_mul (js_div p 100) (of_nat (length ds))) - 1"
    if "f \<noteq> []" "0 < p" "p \<le> 100" for p
    using rank [OF that] by linarith
  have n: "f \<noteq> [] \<Longrightarrow>
        avgProcessingTime (stats (getProcessingTimes pf now since limit tr)) =
          Math_round (js_div (of_int (sum_list ds)) (of_nat (length ds)))
        \<and> p50ProcessingTime (stats (getProcessingTimes pf now since limit tr)) =
            ds ! nat (Math_ceil (js_mul (js_div 50 100) (of_nat (length ds))) - 1)
        \<and> p95ProcessingTime (stats (getProcessingTimes pf now since limit tr)) =
            ds ! nat (Math_ceil (js_mul (js_div 95 100) (of_nat (length ds))) - 1)"
    unfolding getProcessingTimes_def Let_def f_def [symmetric] ds_def [symmetric] percentile_def
    using len clamp [of 50] clamp [of 95] by simp
  have r: "f \<noteq> [] \<Longrightarrow>
        0 \<le> Math_ceil (js_mul (js_div 50 100) (of_nat (length ds))) - 1
        \<and> Math_ceil (js_mul (js_div 50 100) (of_nat (length ds))) - 1 < int (length ds)
        \<and> 0 \<le> Math_ceil (js_mul (js_div 95 100) (of_nat (length ds))) - 1
        \<and> Math_ceil (js_mul (js_div 95 100) (of_nat (length ds))) - 1 < int (length ds)"
    using rank [of 50] rank [of 95] by simp
  have x: "f \<noteq> [] \<Longrightarrow>
        Math_ceil (js_mul (js_div 50 100) (of_nat (length ds))) - 1 =
          \<lceil>(50 / 100 :: rat) * of_nat (length ds)\<rceil> - 1
        \<and> Math_ceil (js_mul (js_div 95 100) (of_nat (length ds))) - 1 =
            \<lceil>(95 / 100 :: rat) * of_nat (length ds)\<rceil> - 1"
    using nearest_rank_50_95 [of "length ds"] cap len by simp
  have m: "Math_round (js_div (of_int (sum_list ds)) (of_nat (length ds))) =
             round ((of_int (sum_list ds) :: rat) / of_nat (length ds))"
    if "f \<noteq> []" "\<forall>d \<in> set ds. 0 \<le> d \<and> d \<le> 2 ^ 42"
  proof -
    from sum_list_bounds [OF that(2)]
    have "0 \<le> sum_list ds" "sum_list ds \<le> 2 ^ 42 * int (length ds)"
      by simp_all
    moreover from that(1) len have "0 < length ds" by simp
    ultimately show ?thesis
      using cap by (intro rounded_mean_exact)
  qed
  have a: "f \<noteq> [] \<Longrightarrow> (\<forall>d \<in> set ds. 0 \<le> d \<and> d \<le> 2 ^ 42) \<longrightarrow>
        avgProcessingTime (stats (getProcessingTimes pf now since limit tr)) =
          round ((of_int (sum_list ds) :: rat) / of_nat (length ds))"
    using n m by simp
  show ?thesis
    unfolding t Let_def ds_def [symmetric]
    using q e n r x a by simp
qed

theorem C9_getProcessingTimes_stats_witness:
  "length (processingTimes (sample_tracker [30, 10, 50, 20, 40])) \<le> MAX_PROCESSING_TIMES
   \<and> map duration (times (getProcessingTimes examples_platform 1700000010000 None 100
            (sample_tracker [30, 10, 50, 20, 40]))) = [30, 10, 50, 20, 40]
   \<and> stats (getProcessingTimes examples_platform 1700000010000 None 100
            (sample_tracker [30, 10, 50, 20, 40])) =
     \<lparr>avgProcessingTime = 30, p50ProcessingTime = 30, p95ProcessingTime = 50,
      avgQueueDepth = 0, peakQueueDepth = 0, observationsPerMinute = 75\<rparr>
   \<and> avgProcessingTime (stats (getProcessingTimes examples_platform 1700000010000 None 100
            (sample_tracker [30, 10, 50, 20, 40]))) =
       Math_round (js_div (of_int (sum_list (sort [30, 10, 50, 20, 40]))) (of_nat 5))
   \<and> avgProcessingTime (stats (getProcessingTimes examples_platform 1700000010000 None 100
            (sample_tracker [30, 10, 50, 20, 40]))) =
       round ((of_int (sum_list (sort [30, 10, 50, 20, 40])) :: rat) / of_nat 5)"
proof -
  let ?r = "getProcessingTimes examples_platform 1700000010000 None 100
            (sample_tracker [30, 10, 50, 20, 40])"
  have t: "map duration (times ?r) = [30, 10, 50, 20, 40]"
    by code_simp
  then have ne: "times ?r \<noteq> []" by auto
  have s: "stats ?r =
     \<lparr>avgProcessingTime = 30, p50ProcessingTime = 30, p95ProcessingTime = 50,
      avgQueueDepth = 0, peakQueueDepth = 0, observationsPerMinute = 75\<rparr>"
    by (rule scenario_6)
  have b: "length (processingTimes (sample_tracker [30, 10, 50, 20, 40])) \<le> MAX_PROCESSING_TIMES"
    by (simp add: sample_tracker_def MAX_PROCESSING_TIMES_def)
  from C9_getProcessingTimes_stats
         [OF b, of examples_platform 1700000010000 None 100]
       ne t
  have "avgProcessingTime (stats ?r) =
          Math_round (js_div (of_int (sum_list (sort [30, 10, 50, 20, 40]))) (of_nat 5))
        \<and> avgProcessingTime (stats ?r) =
          round ((of_int (sum_list (sort [30, 10, 50, 20, 40])) :: rat) / of_nat 5)"
    by (simp add: Let_def del: sort_key_simps)
  with b t s show ?thesis by simp
qed

section \<open>Token accounting of a reply\<close>

lemma track_usage_counts:
  "cumulativeInputTokens (track_usage u s) =
     cumulativeInputTokens s
     + (case u of None \<Rightarrow> 0
        | Some us \<Rightarrow> or_0 (input_tokens us) + or_0 (cache_creation_input_tokens us))"
  "cumulativeOutputTokens (track_usage u s) =
     cumulativeOutputTokens s + (case u of None \<Rightarrow> 0 | Some us \<Rightarrow> or_0 (output_tokens us))"
  "lastPromptNumber (track_usage u s) = lastPromptNumber s"
  "claudeSessionId (track_usage u s) = claudeSessionId s"
  "session_project (track_usage u s) = session_project s"
  by (simp_all add: track_usage_def Let_def truthy_num_def or_0_def split: option.splits)

lemma track_usage_ignores_cache_read:
  "track_usage (Some (us\<lparr>cache_read_input_tokens := x\<rparr>)) s = track_usage (Some us) s"
  by (simp add: track_usage_def Let_def)

lemma store_observations_inserts:
  "\<exists>k \<le> length xs.
     inserted_observations (state_after (store_observations hw session delta xs w)) =
       inserted_observations w @ map (insert_of session delta) (take k xs)
     \<and> (store_writable w \<longrightarrow> k = length xs)
     \<and> store_writable (state_after (store_observations hw session delta xs w)) = store_writable w
     \<and> inserted_summaries (state_after (store_observations hw session delta xs w)) = inserted_summaries w"
proof (induction xs arbitrary: w)
  case Nil
  show ?case by (simp add: state_after_def)
next
  case (Cons x xs)
  show ?case
  proof (cases "store_writable w")
    case False
    then show ?thesis
      by (intro exI [of _ 0]) (simp add: storeObservation_def state_after_def)
  next
    case True
    define w1 where "w1 = do_effects
               (SyncObservation (int (length (inserted_observations w)) + 1) delta
                # (if hw
                   then [BroadcastNewObservation (int (length (inserted_observations w)) + 1)
                           (lastPromptNumber session),
                         BroadcastTokenUpdateCall]
                   else []))
               (w\<lparr>inserted_observations := inserted_observations w @ [insert_of session delta x]\<rparr>)"
    have step: "store_observations hw session delta (x # xs) w =
                  store_observations hw session delta xs w1"
      using True by (simp add: storeObservation_def insert_of_def w1_def)
    have w1: "inserted_observations w1 = inserted_observations w @ [insert_of session delta x]"
      "store_writable w1 = store_writable w" "inserted_summaries w1 = inserted_summaries w"
      by (simp_all add: w1_def do_effects_def)
    from Cons.IH [of w1] obtain k where k: "k \<le> length xs"
      "inserted_observations (state_after (store_observations hw session delta xs w1)) =
         inserted_observations w1 @ map (insert_of session delta) (take k xs)"
      "store_writable w1 \<longrightarrow> k = length xs"
      "store_writable (state_after (store_observations hw session delta xs w1)) = store_writable w1"
      "inserted_summaries (state_after (store_observations hw session delta xs w1)) = inserted_summaries w1"
      by blast
    show ?thesis
      unfolding step
      by (rule exI [of _ "Suc k"]) (use k w1 in simp)
  qed
qed

lemma markMessagesProcessed_keeps:
  "cumulativeInputTokens (fst (markMessagesProcessed hw (s, w))) = cumulativeInputTokens s"
  "cumulativeOutputTokens (fst (markMessagesProcessed hw (s, w))) = cumulativeOutputTokens s"
  "lastPromptNumber (fst (markMessagesProcessed hw (s, w))) = lastPromptNumber s"
  "inserted_observations (snd (markMessagesProcessed hw (s, w))) = inserted_observations w"
  by (simp_all add: markMessagesProcessed_def do_effects_def Let_def split: prod.splits)

lemma store_parsed_summary_keeps:
  "inserted_observations (state_after (store_parsed_summary hw s delta parsed w)) =
     inserted_observations w"
  by (simp add: store_parsed_summary_def storeSummary_def state_after_def do_effects_def
           split: option.splits)

lemma record_processed_keeps:
  "inserted_observations (record_processed hw delta xs w) = inserted_observations w"
  by (simp add: record_processed_def do_effects_def)

lemma processSDKResponse_state:
  "inserted_observations (snd (state_after (processSDKResponse ps hw text delta (s, w)))) =
     inserted_observations
       (state_after (store_observations hw s delta (parseObservations ps text (claudeSessionId s)) w))
   \<and> cumulativeInputTokens (fst (state_after (processSDKResponse ps hw text delta (s, w))))
       = cumulativeInputTokens s
   \<and> cumulativeOutputTokens (fst (state_after (processSDKResponse ps hw text delta (s, w))))
       = cumulativeOutputTokens s"
proof (cases "store_observations hw s delta (parseObservations ps text (claudeSessionId s)) w")
  case (Inl x)
  then show ?thesis
    by (cases x) (simp add: processSDKResponse_def state_after_def)
next
  case (Inr w1)
  define r where "r = store_parsed_summary hw s delta (parseSummary ps text (sessionDbId s))
                        (record_processed hw delta (parseObservations ps text (claudeSessionId s)) w1)"
  have keep: "inserted_observations (state_after r) = inserted_observations w1"
    by (simp add: r_def store_parsed_summary_keeps record_processed_keeps)
  show ?thesis
  proof (cases r)
    case (Inl x)
    obtain err w2 where x: "x = (err, w2)" by (cases x)
    from Inr Inl x have "processSDKResponse ps hw text delta (s, w) = Inl (err, (s, w2))"
      by (simp add: processSDKResponse_def r_def [symmetric])
    with Inr keep Inl x show ?thesis
      by (simp add: state_after_def)
  next
    case inr: (Inr w2)
    with Inr have "processSDKResponse ps hw text delta (s, w) =
                     Inr (markMessagesProcessed hw (s, w2))"
      by (simp add: processSDKResponse_def r_def [symmetric])
    with Inr keep inr show ?thesis
      by (simp add: state_after_def markMessagesProcessed_keeps)
  qed
qed

lemma processSDKResponse_inserts:
  "\<exists>k \<le> length (parseObservations ps text (claudeSessionId s)).
     inserted_observations (snd (state_after (processSDKResponse ps hw text delta (s, w)))) =
       inserted_observations w
       @ map (insert_of s delta) (take k (parseObservations ps text (claudeSessionId s)))
     \<and> (store_writable w \<longrightarrow> k = length (parseObservations ps text (claudeSessionId s)))"
  unfolding processSDKResponse_state [THEN conjunct1]
  using store_observations_inserts [of "parseObservations ps text (claudeSessionId s)" hw s delta w]
  by blast

text \<open>
  C2: for every assistant reply the loop consumes, with \<open>tokensBefore\<close> the sum of the two
  cumulative counts before the update: the update adds
  \<open>input_tokens + cache_creation_input_tokens\<close> to the cumulative input count and
  \<open>output_tokens\<close> to the cumulative output count, and nothing of \<open>cache_read_input_tokens\<close>;
  the delta of the sums is the sum of those three; and every observation persisted from
  the reply is inserted with that same delta as its discovery tokens (all the parsed ones,
  in order, when the store accepts writes).
\<close>

theorem C2_discovery_token_delta:
  "(let after = state_after (handle_assistant ps hw msg (session, w));
        session' = fst after;
        tokensBefore = cumulativeInputTokens session + cumulativeOutputTokens session;
        delta = (cumulativeInputTokens session' + cumulativeOutputTokens session') - tokensBefore
    in cumulativeInputTokens session' =
         cumulativeInputTokens session + usage_count input_tokens msg
         + usage_count cache_creation_input_tokens msg
       \<and> cumulativeOutputTokens session' =
           cumulativeOutputTokens session + usage_count output_tokens msg
       \<and> delta = usage_count input_tokens msg + usage_count cache_creation_input_tokens msg
                 + usage_count output_tokens msg
       \<and> (\<exists>k \<le> length (parsed_from ps msg session).
             inserted_observations (snd after) =
               inserted_observations w
               @ map (insert_of session delta) (take k (parsed_from ps msg session))
             \<and> (store_writable w \<longrightarrow> k = length (parsed_from ps msg session))))"
proof -
  define s1 where "s1 = track_usage (usage msg) session"
  define delta where "delta = (cumulativeInputTokens s1 + cumulativeOutputTokens s1)
                       - (cumulativeInputTokens session + cumulativeOutputTokens session)"
  define after where "after = state_after (handle_assistant ps hw msg (session, w))"
  have after: "after =
      (if textContent msg = [] then markMessagesProcessed hw (s1, w)
       else state_after (processSDKResponse ps hw (textContent msg) delta (s1, w)))"
    by (simp add: after_def handle_assistant_def Let_def s1_def delta_def state_after_def)
  have cin: "cumulativeInputTokens (fst after) = cumulativeInputTokens s1"
    and cout: "cumulativeOutputTokens (fst after) = cumulativeOutputTokens s1"
    by (simp_all add: after markMessagesProcessed_keeps processSDKResponse_state)
  have s1_in: "cumulativeInputTokens s1 =
         cumulativeInputTokens session + usage_count input_tokens msg
         + usage_count cache_creation_input_tokens msg"
    and s1_out: "cumulativeOutputTokens s1 =
         cumulativeOutputTokens session + usage_count output_tokens msg"
    by (simp_all add: s1_def track_usage_counts usage_count_def split: option.splits)
  have ins_eq: "insert_of s1 delta = insert_of session delta"
    by (simp add: insert_of_def fun_eq_iff s1_def track_usage_counts)
  have parsed: "\<exists>k \<le> length (parsed_from ps msg session).
             inserted_observations (snd after) =
               inserted_observations w
               @ map (insert_of session delta) (take k (parsed_from ps msg session))
             \<and> (store_writable w \<longrightarrow> k = length (parsed_from ps msg session))"
  proof (cases "textContent msg = []")
    case True
    then show ?thesis
      by (simp add: after parsed_from_def markMessagesProcessed_keeps)
  next
    case False
    with processSDKResponse_inserts [of ps "textContent msg" s1 hw delta w]
    show ?thesis
      by (simp add: after parsed_from_def ins_eq [unfolded s1_def] s1_def track_usage_counts)
  qed
  have d: "(cumulativeInputTokens (fst after) + cumulativeOutputTokens (fst after))
           - (cumulativeInputTokens session + cumulativeOutputTokens session) = delta"
    by (simp add: cin cout delta_def)
  show ?thesis
    unfolding Let_def after_def [symmetric] d
    using parsed by (simp add: cin cout s1_in s1_out delta_def)
qed

theorem C2_discovery_token_delta_witness:
  "store_writable empty_world
   \<and> cumulativeInputTokens
        (fst (state_after (handle_assistant two_observations True reply_18 (session_7, empty_world))))
       = 113
   \<and> cumulativeOutputTokens
        (fst (state_after (handle_assistant two_observations True reply_18 (session_7, empty_world))))
       = 55
   \<and> map ins_discoveryTokens (inserted_observations
        (snd (state_after (handle_assistant two_observations True reply_18 (session_7, empty_world)))))
       = [18, 18]"
proof -
  have w: "store_writable empty_world" "inserted_observations empty_world = []"
    by (simp_all add: empty_world_def)
  have u: "usage_count input_tokens reply_18 = 10" "usage_count output_tokens reply_18 = 5"
    "usage_count cache_creation_input_tokens reply_18 = 3"
    by (simp_all add: usage_count_def reply_18_def or_0_def)
  have s: "cumulativeInputTokens session_7 = 100" "cumulativeOutputTokens session_7 = 50"
    by (simp_all add: session_7_def)
  have p: "\<exists>a b. parsed_from two_observations reply_18 session_7 = [a, b]"
    by (simp add: parsed_from_def two_observations_def reply_18_def)
  from C2_discovery_token_delta [of two_observations True reply_18 session_7 empty_world]
  show ?thesis
    unfolding Let_def u s
    using w p by (auto simp: insert_of_def comp_def)
qed

section \<open>The prompt number\<close>

text \<open>
  C8, as the specification states it, fails on the code: a session whose
  \<^verbatim>\<open>lastPromptNumber\<close> is 5 and that is delivered an observation message with
  \<^verbatim>\<open>prompt_number\<close> 2 has \<^verbatim>\<open>lastPromptNumber\<close> 2 from that frame on.
\<close>

theorem C8_lastPromptNumber_counterexample:
  "map (\<lambda>(f, snapshot). lastPromptNumber snapshot)
     (fst (createMessageGenerator [observation_with (Some (Number 2))] session_7)) =
     [Number 5, Number 2]
   \<and> lastPromptNumber (snd (createMessageGenerator [observation_with (Some (Number 2))] session_7)) =
       Number 2
   \<and> lastPromptNumber session_7 = Number 5"
  by (simp add: createMessageGenerator_def observation_with_def session_7_def Let_def)

text \<open>A \<^verbatim>\<open>prompt_number\<close> that is \<^verbatim>\<open>null\<close> passes the test \<^verbatim>\<open>!== undefined\<close> and is assigned.\<close>

lemma null_prompt_number_assigned:
  "map (\<lambda>(f, snapshot). lastPromptNumber snapshot)
     (fst (createMessageGenerator [observation_with (Some Null)] session_7)) = [Number 5, Null]"
  by (simp add: createMessageGenerator_def observation_with_def session_7_def Let_def)

lemma message_loop_length: "length (fst (message_loop ms s)) = length ms"
  by (induction ms arbitrary: s) (simp_all add: Let_def split_def split: message_type.splits)

lemma message_loop_updates:
  "i < length ms \<Longrightarrow> msg_type (ms ! i) = observation_message \<Longrightarrow>
   prompt_number (ms ! i) = Some v \<Longrightarrow>
   lastPromptNumber (snd (fst (message_loop ms s) ! i)) = v"
proof (induction ms arbitrary: s i)
  case Nil
  then show ?case by simp
next
  case (Cons m ms)
  show ?case
  proof (cases i)
    case 0
    with Cons.prems show ?thesis
      by (simp add: Let_def split_def)
  next
    case (Suc j)
    with Cons.prems have "j < length ms" "msg_type (ms ! j) = observation_message"
      "prompt_number (ms ! j) = Some v"
      by simp_all
    from Cons.IH [OF this] Suc show ?thesis
      by (simp add: Let_def split_def split: message_type.splits)
  qed
qed

lemma message_loop_monotone:
  "sorted (map ToNumber (lastPromptNumber s # carried_prompt_numbers ms)) \<Longrightarrow>
   sorted (ToNumber (lastPromptNumber s)
           # map (\<lambda>(f, snapshot). ToNumber (lastPromptNumber snapshot))
               (fst (message_loop ms s)))
   \<and> ToNumber (lastPromptNumber s) \<le> ToNumber (lastPromptNumber (snd (message_loop ms s)))
   \<and> (\<forall>y \<in> set (fst (message_loop ms s)).
         ToNumber (lastPromptNumber (snd y))
           \<le> ToNumber (lastPromptNumber (snd (message_loop ms s))))"
proof (induction ms arbitrary: s)
  case Nil
  then show ?case by simp
next
  case (Cons m ms)
  define s1 where "s1 = (if msg_type m = observation_message
                         then (case prompt_number m of
                                 Some v \<Rightarrow> s\<lparr>lastPromptNumber := v\<rparr> | None \<Rightarrow> s)
                         else s)"
  have run: "fst (message_loop (m # ms) s) =
               (case msg_type m of
                  observation_message \<Rightarrow>
                    ObservationPrompt (tool_name m) (tool_input m) (tool_response m) (cwd m)
                | summarize_message \<Rightarrow>
                    SummaryPrompt (sessionDbId s) (session_project s) (userPrompt s)
                      (or_empty (last_user_message m)) (or_empty (last_assistant_message m)),
                s1) # fst (message_loop ms s1)"
    "snd (message_loop (m # ms) s) = snd (message_loop ms s1)"
    by (simp_all add: s1_def Let_def split_def split: message_type.splits)
  have step: "ToNumber (lastPromptNumber s) \<le> ToNumber (lastPromptNumber s1)"
    and rest: "sorted (map ToNumber (lastPromptNumber s1 # carried_prompt_numbers ms))"
    using Cons.prems
    by (auto simp: s1_def carried_prompt_numbers_def
             split: message_type.splits option.splits)
  from Cons.IH [OF rest] step show ?case
    unfolding run by auto
qed

text \<open>
  C8 (amended): when an observation frame carries a \<^verbatim>\<open>prompt_number\<close>, the session's
  \<^verbatim>\<open>lastPromptNumber\<close> has that value at the moment the frame is yielded; and when the
  prompt numbers the messages carry never decrease and start no lower than the
  session's, \<^verbatim>\<open>lastPromptNumber\<close> never decreases during the session. (A \<^verbatim>\<open>null\<close> is
  assigned like any other carried value and compares as zero.)
\<close>

theorem C8_lastPromptNumber_amended:
  "(\<forall>i < length messages.
      msg_type (messages ! i) = observation_message \<and> prompt_number (messages ! i) = Some v \<longrightarrow>
      lastPromptNumber (snd (fst (createMessageGenerator messages session) ! Suc i)) = v)
   \<and> (sorted (map ToNumber (lastPromptNumber session # carried_prompt_numbers messages)) \<longrightarrow>
        sorted (map (\<lambda>(f, snapshot). ToNumber (lastPromptNumber snapshot))
                  (fst (createMessageGenerator messages session)))
        \<and> ToNumber (lastPromptNumber session)
            \<le> ToNumber (lastPromptNumber (snd (createMessageGenerator messages session))))"
  using message_loop_updates [of _ messages v session] message_loop_monotone [of session messages]
  by (simp add: createMessageGenerator_def Let_def split_def)

theorem C8_lastPromptNumber_amended_witness:
  "carried_prompt_numbers [observation_with (Some (Number 5)), observation_with None,
                           observation_with (Some (Number 6))] = [Number 5, Number 6]
   \<and> lastPromptNumber session_7 = Number 5
   \<and> map (\<lambda>(f, snapshot). lastPromptNumber snapshot)
        (fst (createMessageGenerator
                [observation_with (Some (Number 5)), observation_with None,
                 observation_with (Some (Number 6))]
                session_7)) = [Number 5, Number 5, Number 5, Number 6]
   \<and> sorted (map (\<lambda>(f, snapshot). ToNumber (lastPromptNumber snapshot))
        (fst (createMessageGenerator
                [observation_with (Some (Number 5)), observation_with None,
                 observation_with (Some (Number 6))]
                session_7)))"
proof -
  let ?ms = "[observation_with (Some (Number 5)), observation_with None,
              observation_with (Some (Number 6))]"
  have c: "carried_prompt_numbers ?ms = [Number 5, Number 6]"
    by (simp add: carried_prompt_numbers_def observation_with_def)
  have l: "lastPromptNumber session_7 = Number 5"
    by (simp add: session_7_def)
  have e: "map (\<lambda>(f, snapshot). lastPromptNumber snapshot)
        (fst (createMessageGenerator ?ms session_7)) = [Number 5, Number 5, Number 5, Number 6]"
    by (simp add: createMessageGenerator_def observation_with_def session_7_def Let_def)
  from C8_lastPromptNumber_amended [of ?ms "Number 6" session_7]
  have "sorted (map (\<lambda>(f, snapshot). ToNumber (lastPromptNumber snapshot))
        (fst (createMessageGenerator ?ms session_7)))"
    unfolding c l by simp
  with c l e show ?thesis by simp
qed

end
